theory Spec2Isabelle
  imports Main
begin

section \<open>Errors as values\<close>

text \<open>
  The exceptions the modelled code can raise.  \<open>ValueError\<close> comes from the \<open>date\<close>
  constructor and from \<open>max\<close>/\<open>min\<close> of an empty sequence, \<open>OverflowError\<close> from
  date arithmetic that leaves the range of \<open>datetime.date\<close>, \<open>RuntimeError\<close> from
  \<open>find_phase\<close>, \<open>IndexError\<close> from list indexing.
\<close>

datatype error = ValueError | OverflowError | RuntimeError | IndexError

definition ebind :: "error + 'a \<Rightarrow> ('a \<Rightarrow> error + 'b) \<Rightarrow> error + 'b" where
  "ebind m f = (case m of Inl e \<Rightarrow> Inl e | Inr x \<Rightarrow> f x)"

section \<open>Calendar dates (\<open>datetime.date\<close>)\<close>

text \<open>
  A \<open>datetime.date\<close> is represented by its proleptic Gregorian ordinal
  (\<open>date.toordinal()\<close>, 1 for 0001-01-01, 3652059 for 9999-12-31).  Python orders dates by
  (year, month, day), which is the order of the ordinals; \<open>d + timedelta(days=k)\<close> and
  \<open>(a - b).days\<close> are computed on ordinals by the library itself.  The conversions follow
  the library's \<open>_ymd2ord\<close> and \<open>_ord2ymd\<close>.
\<close>

type_synonym date = int

definition MINYEAR :: int where "MINYEAR = 1"
definition MAXYEAR :: int where "MAXYEAR = 9999"
definition MAXORDINAL :: int where "MAXORDINAL = 3652059"

definition valid_date :: "date \<Rightarrow> bool" where
  "valid_date d = (1 \<le> d \<and> d \<le> MAXORDINAL)"

definition is_leap :: "int \<Rightarrow> bool" where
  "is_leap year = (year mod 4 = 0 \<and> (year mod 100 \<noteq> 0 \<or> year mod 400 = 0))"

definition days_before_year :: "int \<Rightarrow> int" where
  "days_before_year year = (let y = year - 1 in y * 365 + y div 4 - y div 100 + y div 400)"

definition DAYS_IN_MONTH :: "int list" where
  "DAYS_IN_MONTH = [-1, 31, 28, 31, 30, 31, 30, 31, 31, 30, 31, 30, 31]"

definition DAYS_BEFORE_MONTH :: "int list" where
  "DAYS_BEFORE_MONTH = [-1, 0, 31, 59, 90, 120, 151, 181, 212, 243, 273, 304, 334]"

definition days_in_month :: "int \<Rightarrow> int \<Rightarrow> int" where
  "days_in_month year month =
     (if month = 2 \<and> is_leap year then 29 else DAYS_IN_MONTH ! nat month)"

definition days_before_month :: "int \<Rightarrow> int \<Rightarrow> int" where
  "days_before_month year month =
     DAYS_BEFORE_MONTH ! nat month + (if month > 2 \<and> is_leap year then 1 else 0)"

definition ymd2ord :: "int \<Rightarrow> int \<Rightarrow> int \<Rightarrow> int" where
  "ymd2ord year month day = days_before_year year + days_before_month year month + day"

text \<open>\<open>date(year, month, day)\<close>: the constructor checks its fields.\<close>

definition mk_date :: "int \<Rightarrow> int \<Rightarrow> int \<Rightarrow> error + date" where
  "mk_date year month day =
     (if \<not> (MINYEAR \<le> year \<and> year \<le> MAXYEAR) then Inl ValueError
      else if \<not> (1 \<le> month \<and> month \<le> 12) then Inl ValueError
      else if \<not> (1 \<le> day \<and> day \<le> days_in_month year month) then Inl ValueError
      else Inr (ymd2ord year month day))"

definition ord2ymd :: "int \<Rightarrow> int \<times> int \<times> int" where
  "ord2ymd n0 =
     (let n = n0 - 1;
          n400 = n div 146097; n = n mod 146097;
          year = n400 * 400 + 1;
          n100 = n div 36524; n = n mod 36524;
          n4 = n div 1461; n = n mod 1461;
          n1 = n div 365; n = n mod 365;
          year = year + n100 * 100 + n4 * 4 + n1
      in if n1 = 4 \<or> n100 = 4 then (year - 1, 12, 31)
         else
           let leapyear = (n1 = 3 \<and> (n4 \<noteq> 24 \<or> n100 = 3));
               month = (n + 50) div 32;
               preceding = DAYS_BEFORE_MONTH ! nat month
                           + (if month > 2 \<and> leapyear then 1 else 0)
           in if preceding > n
              then let month = month - 1;
                       preceding = preceding - (DAYS_IN_MONTH ! nat month
                                     + (if month = 2 \<and> leapyear then 1 else 0))
                   in (year, month, n - preceding + 1)
              else (year, month, n - preceding + 1))"

definition date_year :: "date \<Rightarrow> int" where
  "date_year d = fst (ord2ymd d)"

definition date_month :: "date \<Rightarrow> int" where
  "date_month d = fst (snd (ord2ymd d))"

definition date_day :: "date \<Rightarrow> int" where
  "date_day d = snd (snd (ord2ymd d))"

text \<open>
  \<open>d + timedelta(days=k)\<close> raises \<open>OverflowError\<close> when the result leaves
  0001-01-01 .. 9999-12-31.  (\<open>timedelta(days=k)\<close> itself raises \<open>OverflowError\<close> for
  \<open>|k| > 999999999\<close>; every such \<open>k\<close> takes a date out of range, so the one test
  covers both.)  \<open>d - timedelta(days=k)\<close> is \<open>d + timedelta(days=-k)\<close>.
\<close>

definition date_add :: "date \<Rightarrow> int \<Rightarrow> error + date" where
  "date_add d k =
     (let n = d + k in if 0 < n \<and> n \<le> MAXORDINAL then Inr n else Inl OverflowError)"

definition date_sub :: "date \<Rightarrow> int \<Rightarrow> error + date" where
  "date_sub d k = date_add d (- k)"

text \<open>\<open>(a - b).days\<close> for two dates.\<close>

definition days_between :: "date \<Rightarrow> date \<Rightarrow> int" where
  "days_between a b = a - b"

section \<open>Configuration\<close>

definition WEEK :: int where "WEEK = 7"
definition FIXED_DAYS :: int where "FIXED_DAYS = 6 * WEEK"
definition HARD_DAYS :: int where "HARD_DAYS = 6 * WEEK"

definition HARD_WEEK_NAMES :: "string list" where
  "HARD_WEEK_NAMES =
     [''Pre-Low Week'', ''Pre-Mid Week'', ''Pre-Peak Week'',
      ''Post-Peak Week'', ''Post-Mid Week'', ''Post-Low Week'']"

section \<open>Solstices\<close>

definition winter_solstice :: "int \<Rightarrow> error + date" where
  "winter_solstice y = mk_date y 12 21"

definition summer_solstice :: "int \<Rightarrow> error + date" where
  "summer_solstice y = mk_date y 6 21"

text \<open>\<open>max\<close> and \<open>min\<close> of a sequence raise \<open>ValueError\<close> when it is empty.\<close>

definition py_max :: "int list \<Rightarrow> error + int" where
  "py_max xs = (case xs of [] \<Rightarrow> Inl ValueError | x # r \<Rightarrow> Inr (fold max r x))"

definition py_min :: "int list \<Rightarrow> error + int" where
  "py_min xs = (case xs of [] \<Rightarrow> Inl ValueError | x # r \<Rightarrow> Inr (fold min r x))"

definition last_next_solstice :: "date \<Rightarrow> error + (date \<times> date)" where
  "last_next_solstice today =
     ebind (mk_date (date_year today - 1) 6 21) (\<lambda>s1.
     ebind (mk_date (date_year today - 1) 12 21) (\<lambda>s2.
     ebind (mk_date (date_year today) 6 21) (\<lambda>s3.
     ebind (mk_date (date_year today) 12 21) (\<lambda>s4.
     ebind (mk_date (date_year today + 1) 6 21) (\<lambda>s5.
     ebind (mk_date (date_year today + 1) 12 21) (\<lambda>s6.
       let sols = [s1, s2, s3, s4, s5, s6] in
       ebind (py_max (filter (\<lambda>s. s \<le> today) sols)) (\<lambda>last_sol.
       ebind (py_min (filter (\<lambda>s. s > today) sols)) (\<lambda>next_sol.
         Inr (last_sol, next_sol)))))))))"

definition solstice_name :: "date \<Rightarrow> string" where
  "solstice_name d = (if date_month d = 6 then ''Summer'' else ''Winter'')"

section \<open>Phase model\<close>

text \<open>
  A phase is the dictionary that \<open>add\<close> appends; \<open>ph_pos\<close> is \<open>None\<close>, \<open>"after"\<close> or
  \<open>"before"\<close>.
\<close>

record phase =
  ph_name :: string
  ph_season :: string
  ph_kind :: string
  ph_start :: date
  ph_end :: date
  ph_pos :: "string option"
  ph_variable :: bool

text \<open>The inner helper \<open>add\<close> of \<open>build_cycle\<close>; the list \<open>phases\<close> it appends to is passed in
  and returned.\<close>

definition add ::
  "phase list \<Rightarrow> string \<Rightarrow> string \<Rightarrow> string \<Rightarrow> date \<Rightarrow> date \<Rightarrow> string option \<Rightarrow> bool \<Rightarrow> phase list"
where
  "add phases name season kind start end' pos variable =
     (if start > end' then phases
      else phases @ [\<lparr>ph_name = name, ph_season = season, ph_kind = kind, ph_start = start,
                      ph_end = end', ph_pos = pos, ph_variable = variable\<rparr>])"

text \<open>
  \<open>build_cycle\<close> reads the module constants \<open>FIXED_DAYS\<close> and \<open>HARD_DAYS\<close>; here they are
  parameters, so that other choices of the constants can be stated.  Every date operation
  that can raise is a step of the error monad, in the order of the source.
\<close>

definition build_cycle_cfg :: "int \<Rightarrow> int \<Rightarrow> int \<Rightarrow> error + phase list" where
  "build_cycle_cfg fixed_days hard_days winter_year =
     ebind (winter_solstice winter_year) (\<lambda>ws.
     ebind (summer_solstice (winter_year + 1)) (\<lambda>ss.
     ebind (winter_solstice (winter_year + 1)) (\<lambda>ws_next.
     ebind (date_sub ws 21) (\<lambda>winter_hard_start.
     ebind (date_add winter_hard_start (hard_days - 1)) (\<lambda>winter_hard_end.
     ebind (date_sub ss 21) (\<lambda>summer_hard_start.
     ebind (date_add summer_hard_start (hard_days - 1)) (\<lambda>summer_hard_end.
     ebind (date_sub ws_next 21) (\<lambda>next_winter_hard_start.
       let phases = [];
           phases = add phases ''Winter Hard'' ''Winter'' ''hard''
                      winter_hard_start winter_hard_end None False
       in
     ebind (date_add winter_hard_end 1) (\<lambda>p.
     ebind (date_add p (fixed_days - 1)) (\<lambda>e.
       let phases = add phases ''Winter Transit 1'' ''Winter'' ''transit'' p e (Some ''after'') False
       in
     ebind (date_add p fixed_days) (\<lambda>p.
     ebind (date_add p (fixed_days - 1)) (\<lambda>e.
       let phases = add phases ''Winter Transit 2'' ''Winter'' ''transit'' p e (Some ''after'') False
       in
     ebind (date_add p fixed_days) (\<lambda>p.
     ebind (date_add p (fixed_days - 1)) (\<lambda>e.
       let phases = add phases ''Summer Transit 1'' ''Summer'' ''transit'' p e None False
       in
     ebind (date_add p fixed_days) (\<lambda>p.
     ebind (date_sub summer_hard_start 1) (\<lambda>e.
       let phases = add phases ''Summer Transit 2'' ''Summer'' ''transit'' p e None True;
           phases = add phases ''Summer Hard'' ''Summer'' ''hard''
                      summer_hard_start summer_hard_end None False
       in
     ebind (date_add summer_hard_end 1) (\<lambda>p.
     ebind (date_add p (fixed_days - 1)) (\<lambda>e.
       let phases = add phases ''Summer Transit 1'' ''Summer'' ''transit'' p e None False
       in
     ebind (date_add p fixed_days) (\<lambda>p.
     ebind (date_add p (fixed_days - 1)) (\<lambda>e.
       let phases = add phases ''Summer Transit 2'' ''Summer'' ''transit'' p e None False
       in
     ebind (date_add p fixed_days) (\<lambda>p.
     ebind (date_add p (fixed_days - 1)) (\<lambda>e.
       let phases = add phases ''Winter Transit 1'' ''Winter'' ''transit'' p e (Some ''before'') False
       in
     ebind (date_add p fixed_days) (\<lambda>p.
     ebind (date_sub next_winter_hard_start 1) (\<lambda>e.
       let phases = add phases ''Winter Transit 2'' ''Winter'' ''transit'' p e (Some ''before'') True
       in Inr phases))))))))))))))))))))))))"

definition build_cycle :: "int \<Rightarrow> error + phase list" where
  "build_cycle winter_year = build_cycle_cfg FIXED_DAYS HARD_DAYS winter_year"

text \<open>
  \<open>find_phase\<close>: the outer loop over the three winter years builds each cycle only when
  the earlier ones held no match; the inner loop returns the first phase that contains
  \<open>today\<close>.
\<close>

fun scan_phases :: "phase list \<Rightarrow> date \<Rightarrow> phase option" where
  "scan_phases [] today = None"
| "scan_phases (ph # phs) today =
     (if ph_start ph \<le> today \<and> today \<le> ph_end ph then Some ph else scan_phases phs today)"

fun scan_cycles :: "int list \<Rightarrow> date \<Rightarrow> error + phase" where
  "scan_cycles [] today = Inl RuntimeError"
| "scan_cycles (wy # wys) today =
     ebind (build_cycle wy) (\<lambda>phases.
       case scan_phases phases today of
         Some ph \<Rightarrow> Inr ph
       | None \<Rightarrow> scan_cycles wys today)"

definition find_phase :: "date \<Rightarrow> error + phase" where
  "find_phase today =
     scan_cycles [date_year today - 1, date_year today, date_year today + 1] today"

section \<open>The progress part of the \<open>/data\<close> handler\<close>

text \<open>\<open>xs[i]\<close>: a negative index counts from the end of the list; outside
  \<open>-len(xs) .. len(xs) - 1\<close> the lookup raises.\<close>

definition py_index :: "'a list \<Rightarrow> int \<Rightarrow> error + 'a" where
  "py_index xs i =
     (if 0 \<le> i \<and> i < int (length xs) then Inr (xs ! nat i)
      else if i < 0 \<and> - int (length xs) \<le> i then Inr (xs ! nat (int (length xs) + i))
      else Inl IndexError)"

text \<open>
  The handler's title computation: \<open>day_index\<close>, and for a hard phase \<open>week_idx\<close> and the
  lookup in \<open>HARD_WEEK_NAMES\<close>.  The result is the pair (season, week name) that the
  handler formats into the title of a hard phase, or the phase name otherwise.
\<close>

definition data_title :: "date \<Rightarrow> error + (string \<times> string)" where
  "data_title today =
     ebind (find_phase today) (\<lambda>ph.
       let day_index = days_between today (ph_start ph) in
       if ph_kind ph = ''hard''
       then let week_idx = day_index div WEEK in
            ebind (py_index HARD_WEEK_NAMES week_idx) (\<lambda>week_name.
              Inr (ph_season ph, week_name))
       else Inr (ph_name ph, []))"

text \<open>
  The solstice counters of the handler: days since the last solstice, its name, days until
  the next solstice, its name.
\<close>

definition solstice_counters :: "date \<Rightarrow> error + (int \<times> string \<times> int \<times> string)" where
  "solstice_counters today =
     ebind (last_next_solstice today) (\<lambda>(last_sol, next_sol).
       let from_days = days_between today last_sol;
           to_days = days_between next_sol today
       in Inr (from_days, solstice_name last_sol, to_days, solstice_name next_sol))"

section \<open>Properties of a cycle\<close>

text \<open>
  A list of phases is gapless when every phase starts on the day after its predecessor
  ends (\<open>phase[i+1].start == phase[i].end + timedelta(days=1)\<close>), and proper when no
  phase has its start after its end.
\<close>

fun gapless :: "phase list \<Rightarrow> bool" where
  "gapless [] = True"
| "gapless [p] = True"
| "gapless (p # q # ps) = (date_add (ph_end p) 1 = Inr (ph_start q) \<and> gapless (q # ps))"

definition proper :: "phase list \<Rightarrow> bool" where
  "proper ps = list_all (\<lambda>p. ph_start p \<le> ph_end p) ps"

definition contains :: "phase \<Rightarrow> date \<Rightarrow> bool" where
  "contains ph d = (ph_start ph \<le> d \<and> d \<le> ph_end ph)"

text \<open>
  The closed form of a cycle built with the default constants, used in the proofs below:
  \<open>E\<close> is the ordinal of December 31 of the winter year and \<open>L\<close> the length of the
  following year.  Lemma \<open>build_cycle_layout\<close> shows that \<open>build_cycle\<close> computes it.
\<close>

definition cycle_layout :: "int \<Rightarrow> int \<Rightarrow> phase list" where
  "cycle_layout E L =
    [\<lparr>ph_name = ''Winter Hard'', ph_season = ''Winter'', ph_kind = ''hard'',
       ph_start = E - 31, ph_end = E + 10, ph_pos = None, ph_variable = False\<rparr>,
     \<lparr>ph_name = ''Winter Transit 1'', ph_season = ''Winter'', ph_kind = ''transit'',
       ph_start = E + 11, ph_end = E + 52, ph_pos = Some ''after'', ph_variable = False\<rparr>,
     \<lparr>ph_name = ''Winter Transit 2'', ph_season = ''Winter'', ph_kind = ''transit'',
       ph_start = E + 53, ph_end = E + 94, ph_pos = Some ''after'', ph_variable = False\<rparr>,
     \<lparr>ph_name = ''Summer Transit 1'', ph_season = ''Summer'', ph_kind = ''transit'',
       ph_start = E + 95, ph_end = E + 136, ph_pos = None, ph_variable = False\<rparr>,
     \<lparr>ph_name = ''Summer Transit 2'', ph_season = ''Summer'', ph_kind = ''transit'',
       ph_start = E + 137, ph_end = E + L - 215, ph_pos = None, ph_variable = True\<rparr>,
     \<lparr>ph_name = ''Summer Hard'', ph_season = ''Summer'', ph_kind = ''hard'',
       ph_start = E + L - 214, ph_end = E + L - 173, ph_pos = None, ph_variable = False\<rparr>,
     \<lparr>ph_name = ''Summer Transit 1'', ph_season = ''Summer'', ph_kind = ''transit'',
       ph_start = E + L - 172, ph_end = E + L - 131, ph_pos = None, ph_variable = False\<rparr>,
     \<lparr>ph_name = ''Summer Transit 2'', ph_season = ''Summer'', ph_kind = ''transit'',
       ph_start = E + L - 130, ph_end = E + L - 89, ph_pos = None, ph_variable = False\<rparr>,
     \<lparr>ph_name = ''Winter Transit 1'', ph_season = ''Winter'', ph_kind = ''transit'',
       ph_start = E + L - 88, ph_end = E + L - 47, ph_pos = Some ''before'', ph_variable = False\<rparr>,
     \<lparr>ph_name = ''Winter Transit 2'', ph_season = ''Winter'', ph_kind = ''transit'',
       ph_start = E + L - 46, ph_end = E + L - 32, ph_pos = Some ''before'', ph_variable = True\<rparr>]"

text \<open>
  For the statement that degenerate phases are dropped: \<open>cycle_candidates\<close> is
  \<open>build_cycle_cfg\<close> with the guard \<open>start > end\<close> of \<open>add\<close> removed, that is, the ten
  phases handed to \<open>add\<close>, in order, after the same date computations.
\<close>

definition append_phase ::
  "phase list \<Rightarrow> string \<Rightarrow> string \<Rightarrow> string \<Rightarrow> date \<Rightarrow> date \<Rightarrow> string option \<Rightarrow> bool \<Rightarrow> phase list"
where
  "append_phase phases name season kind start end' pos variable =
     phases @ [\<lparr>ph_name = name, ph_season = season, ph_kind = kind, ph_start = start,
                ph_end = end', ph_pos = pos, ph_variable = variable\<rparr>]"

definition cycle_candidates :: "int \<Rightarrow> int \<Rightarrow> int \<Rightarrow> error + phase list" where
  "cycle_candidates fixed_days hard_days winter_year =
     ebind (winter_solstice winter_year) (\<lambda>ws.
     ebind (summer_solstice (winter_year + 1)) (\<lambda>ss.
     ebind (winter_solstice (winter_year + 1)) (\<lambda>ws_next.
     ebind (date_sub ws 21) (\<lambda>winter_hard_start.
     ebind (date_add winter_hard_start (hard_days - 1)) (\<lambda>winter_hard_end.
     ebind (date_sub ss 21) (\<lambda>summer_hard_start.
     ebind (date_add summer_hard_start (hard_days - 1)) (\<lambda>summer_hard_end.
     ebind (date_sub ws_next 21) (\<lambda>next_winter_hard_start.
       let phases = [];
           phases = append_phase phases ''Winter Hard'' ''Winter'' ''hard''
                      winter_hard_start winter_hard_end None False
       in
     ebind (date_add winter_hard_end 1) (\<lambda>p.
     ebind (date_add p (fixed_days - 1)) (\<lambda>e.
       let phases = append_phase phases ''Winter Transit 1'' ''Winter'' ''transit'' p e (Some ''after'') False
       in
     ebind (date_add p fixed_days) (\<lambda>p.
     ebind (date_add p (fixed_days - 1)) (\<lambda>e.
       let phases = append_phase phases ''Winter Transit 2'' ''Winter'' ''transit'' p e (Some ''after'') False
       in
     ebind (date_add p fixed_days) (\<lambda>p.
     ebind (date_add p (fixed_days - 1)) (\<lambda>e.
       let phases = append_phase phases ''Summer Transit 1'' ''Summer'' ''transit'' p e None False
       in
     ebind (date_add p fixed_days) (\<lambda>p.
     ebind (date_sub summer_hard_start 1) (\<lambda>e.
       let phases = append_phase phases ''Summer Transit 2'' ''Summer'' ''transit'' p e None True;
           phases = append_phase phases ''Summer Hard'' ''Summer'' ''hard''
                      summer_hard_start summer_hard_end None False
       in
     ebind (date_add summer_hard_end 1) (\<lambda>p.
     ebind (date_add p (fixed_days - 1)) (\<lambda>e.
       let phases = append_phase phases ''Summer Transit 1'' ''Summer'' ''transit'' p e None False
       in
     ebind (date_add p fixed_days) (\<lambda>p.
     ebind (date_add p (fixed_days - 1)) (\<lambda>e.
       let phases = append_phase phases ''Summer Transit 2'' ''Summer'' ''transit'' p e None False
       in
     ebind (date_add p fixed_days) (\<lambda>p.
     ebind (date_add p (fixed_days - 1)) (\<lambda>e.
       let phases = append_phase phases ''Winter Transit 1'' ''Winter'' ''transit'' p e (Some ''before'') False
       in
     ebind (date_add p fixed_days) (\<lambda>p.
     ebind (date_sub next_winter_hard_start 1) (\<lambda>e.
       let phases = append_phase phases ''Winter Transit 2'' ''Winter'' ''transit'' p e (Some ''before'') True
       in Inr phases))))))))))))))))))))))))"

text \<open>\<open>total_days\<close> of the handler: \<open>(ph["end"] - ph["start"]).days + 1\<close>.\<close>

definition total_days :: "phase \<Rightarrow> int" where
  "total_days ph = days_between (ph_end ph) (ph_start ph) + 1"

section \<open>The error monad\<close>

lemma ebind_simps: "ebind (Inl e) f = Inl e" "ebind (Inr x) f = f x"
  by (simp_all add: ebind_def)

lemma ebind_eq_Inr: "ebind m f = Inr y \<longleftrightarrow> (\<exists>x. m = Inr x \<and> f x = Inr y)"
  by (cases m) (simp_all add: ebind_def)

lemma map_sum_ebind:
  "map_sum id g (ebind m f) = ebind m (\<lambda>x. map_sum id g (f x))"
  by (cases m) (simp_all add: ebind_def)

section \<open>Calendar arithmetic\<close>

lemma div_decomp:
  fixes k q r :: int
  assumes "0 < k" "0 \<le> r" "r < k"
  shows "(k * q + r) div k = q" "(k * q + r) mod k = r"
  using assms by simp_all

lemma step_div:
  fixes y k :: int
  assumes k: "0 < k"
  shows "y div k = (y - 1) div k + (if y mod k = 0 then 1 else 0)"
proof -
  define q where "q = (y - 1) div k"
  define s where "s = (y - 1) mod k"
  have s: "0 \<le> s" "s < k" using k by (simp_all add: s_def)
  have "y - 1 = k * q + s" by (simp add: q_def s_def)
  then have y: "y = k * q + (s + 1)" by simp
  show ?thesis
  proof (cases "s + 1 < k")
    case True
    then have "y div k = q" "y mod k = s + 1"
      unfolding y using s k by (simp_all only: div_decomp) 
    then show ?thesis using s by (simp add: q_def)
  next
    case False
    then have "y = k * (q + 1) + 0" using y s by (simp add: algebra_simps)
    then have "y div k = q + 1" "y mod k = 0"
      using div_decomp [of k 0 "q + 1"] k by simp_all
    then show ?thesis by (simp add: q_def)
  qed
qed

lemma mod_facts:
  fixes y :: int
  shows "y mod 400 = 0 \<Longrightarrow> y mod 100 = 0" "y mod 100 = 0 \<Longrightarrow> y mod 4 = 0"
  by presburger+

lemma dby_step:
  "days_before_year (y + 1) = days_before_year y + (if is_leap y then 366 else 365)"
proof -
  define p4 where "p4 = (y - 1) div 4"
  define p100 where "p100 = (y - 1) div 100"
  define p400 where "p400 = (y - 1) div 400"
  have 4: "y div 4 = p4 + (if y mod 4 = 0 then 1 else 0)"
    unfolding p4_def by (rule step_div) simp
  have 100: "y div 100 = p100 + (if y mod 100 = 0 then 1 else 0)"
    unfolding p100_def by (rule step_div) simp
  have 400: "y div 400 = p400 + (if y mod 400 = 0 then 1 else 0)"
    unfolding p400_def by (rule step_div) simp
  have a: "days_before_year (y + 1) = y * 365 + y div 4 - y div 100 + y div 400"
    by (simp add: days_before_year_def Let_def)
  have b: "days_before_year y = (y - 1) * 365 + p4 - p100 + p400"
    by (simp add: days_before_year_def Let_def p4_def p100_def p400_def)
  have c: "(y - 1) * 365 = y * 365 - 365" by (simp add: algebra_simps)
  show ?thesis
    unfolding a b c 4 100 400 is_leap_def
    using mod_facts [of y] by (cases "y mod 4 = 0"; cases "y mod 100 = 0"; cases "y mod 400 = 0") simp_all
qed

lemma dby_step2:
  "days_before_year (y + 2) = days_before_year (y + 1) + (if is_leap (y + 1) then 366 else 365)"
proof -
  have "y + 2 = (y + 1) + 1" by simp
  then show ?thesis by (simp only: dby_step)
qed

lemma dby_decomp:
  assumes "0 \<le> b" "b \<le> 3" "0 \<le> c" "c \<le> 24" "0 \<le> e" "e \<le> 3"
  shows "days_before_year (400 * a + 100 * b + 4 * c + e + 1)
           = 146097 * a + 36524 * b + 1461 * c + 365 * e"
proof -
  let ?y = "400 * a + 100 * b + 4 * c + e"
  have "?y = 4 * (100 * a + 25 * b + c) + e" by simp
  then have d4: "?y div 4 = 100 * a + 25 * b + c"
    using div_decomp(1) [of 4 e "100 * a + 25 * b + c"] assms by simp
  have "?y = 100 * (4 * a + b) + (4 * c + e)" by simp
  then have d100: "?y div 100 = 4 * a + b"
    using div_decomp(1) [of 100 "4 * c + e" "4 * a + b"] assms by simp
  have "?y = 400 * a + (100 * b + 4 * c + e)" by simp
  then have d400: "?y div 400 = a"
    using div_decomp(1) [of 400 "100 * b + 4 * c + e" a] assms by simp
  show ?thesis
    unfolding days_before_year_def Let_def using d4 d100 d400 by simp
qed

lemma date_year_eq:
  "date_year d =
     (let m = d - 1; a = m div 146097; r = m mod 146097; b = r div 36524; r2 = r mod 36524;
          c = r2 div 1461; r3 = r2 mod 1461; e = r3 div 365
      in if e = 4 \<or> b = 4 then a * 400 + 1 + b * 100 + c * 4 + e - 1
         else a * 400 + 1 + b * 100 + c * 4 + e)"
  unfolding date_year_def ord2ymd_def Let_def
  by (simp only: if_distrib [of fst] fst_conv if_cancel)

lemma dby_mono_step: "days_before_year y + 365 \<le> days_before_year (y + 1)"
  by (simp add: dby_step)

lemma year_bracket:
  "days_before_year (date_year d) < d \<and> d \<le> days_before_year (date_year d + 1)"
proof -
  define m where "m = d - 1"
  define a where "a = m div 146097"
  define r where "r = m mod 146097"
  define b where "b = r div 36524"
  define r2 where "r2 = r mod 36524"
  define c where "c = r2 div 1461"
  define r3 where "r3 = r2 mod 1461"
  define e where "e = r3 div 365"
  define n where "n = r3 mod 365"
  have m: "m = 146097 * a + r" and r: "0 \<le> r" "r < 146097"
    by (simp_all add: a_def r_def)
  have r': "r = 36524 * b + r2" and r2: "0 \<le> r2" "r2 < 36524"
    by (simp_all add: b_def r2_def)
  have r2': "r2 = 1461 * c + r3" and r3: "0 \<le> r3" "r3 < 1461"
    by (simp_all add: c_def r3_def)
  have r3': "r3 = 365 * e + n" and n: "0 \<le> n" "n < 365"
    by (simp_all add: e_def n_def)
  have b: "0 \<le> b" "b \<le> 4" using r r' r2 by linarith+
  have c: "0 \<le> c" "c \<le> 24" using r2 r2' r3 by linarith+
  have e: "0 \<le> e" "e \<le> 4" using r3 r3' n by linarith+
  have yr: "date_year d = (if e = 4 \<or> b = 4 then a * 400 + 1 + b * 100 + c * 4 + e - 1
         else a * 400 + 1 + b * 100 + c * 4 + e)"
    unfolding date_year_eq Let_def m_def a_def r_def b_def r2_def c_def r3_def e_def ..
  have d: "d = 146097 * a + 36524 * b + 1461 * c + 365 * e + n + 1"
    using m r' r2' r3' by (simp add: m_def)
  show ?thesis
  proof (cases "b = 4")
    case True
    then have z: "c = 0" "e = 0" "n = 0" using r r' r2 r2' r3 r3' n c e by linarith+
    have y: "date_year d = 400 * a + 100 * 3 + 4 * 24 + 3 + 1"
      using yr True z by simp
    have d': "d = 146097 * a + 146097"
      using d True z by simp
    have 1: "days_before_year (date_year d) = 146097 * a + 36524 * 3 + 1461 * 24 + 365 * 3"
      unfolding y by (rule dby_decomp) simp_all
    have "date_year d + 1 = 400 * (a + 1) + 100 * 0 + 4 * 0 + 0 + 1" using y by simp
    then have 2: "days_before_year (date_year d + 1) = 146097 * (a + 1) + 36524 * 0 + 1461 * 0 + 365 * 0"
      by (simp only: dby_decomp [of 0 0 0 "a + 1"] order_refl) 
    show ?thesis using d' 1 2 by simp
  next
    case b4: False
    then have b3: "b \<le> 3" using b by simp
    show ?thesis
    proof (cases "e = 4")
      case True
      then have n0: "n = 0" using r3 r3' n by linarith
      have c23: "c \<le> 23" using True r2 r2' r3' n c by linarith
      have y: "date_year d = 400 * a + 100 * b + 4 * c + 3 + 1" using yr True by simp
      have 1: "days_before_year (date_year d) = 146097 * a + 36524 * b + 1461 * c + 365 * 3"
        unfolding y using b b3 c by (intro dby_decomp) simp_all
      have "date_year d + 1 = 400 * a + 100 * b + 4 * (c + 1) + 0 + 1" using y by simp
      then have 2: "days_before_year (date_year d + 1) = 146097 * a + 36524 * b + 1461 * (c + 1) + 365 * 0"
        using dby_decomp [of b "c + 1" 0 a] b b3 c c23 by simp
      show ?thesis using d True n0 1 2 by simp
    next
      case False
      then have e3: "e \<le> 3" using e by simp
      have y: "date_year d = 400 * a + 100 * b + 4 * c + e + 1" using yr False b4 by simp
      have 1: "days_before_year (date_year d) = 146097 * a + 36524 * b + 1461 * c + 365 * e"
        unfolding y using b b3 c e e3 by (intro dby_decomp) simp_all
      have "days_before_year (date_year d) + 365 \<le> days_before_year (date_year d + 1)"
        by (rule dby_mono_step)
      then show ?thesis using 1 d n by simp
    qed
  qed
qed

lemma dby_mono_nat: "days_before_year y + 365 * int k \<le> days_before_year (y + int k)"
proof (induction k)
  case 0
  then show ?case by simp
next
  case (Suc k)
  have "days_before_year (y + int k) + 365 \<le> days_before_year ((y + int k) + 1)"
    by (rule dby_mono_step)
  then show ?case using Suc by (simp add: algebra_simps)
qed

lemma dby_grow: "y \<le> y' \<Longrightarrow> days_before_year y + 365 * (y' - y) \<le> days_before_year y'"
  using dby_mono_nat [of y "nat (y' - y)"] by simp

lemma dby_mono: "y \<le> y' \<Longrightarrow> days_before_year y \<le> days_before_year y'"
  using dby_grow [of y y'] by (smt (verit) mult_nonneg_nonneg)

lemma dby_values: "days_before_year 1 = 0" "days_before_year 2 = 365" "days_before_year 10000 = 3652059"
  by (simp_all add: days_before_year_def)

lemma date_year_unique:
  assumes "days_before_year y < d" "d \<le> days_before_year (y + 1)"
  shows "date_year d = y"
proof (rule ccontr)
  assume ne: "date_year d \<noteq> y"
  have br: "days_before_year (date_year d) < d" "d \<le> days_before_year (date_year d + 1)"
    using year_bracket [of d] by simp_all
  show False
  proof (cases "date_year d < y")
    case True
    then have "days_before_year (date_year d + 1) \<le> days_before_year y"
      by (intro dby_mono) simp
    then show False using br assms by simp
  next
    case False
    then have "days_before_year (y + 1) \<le> days_before_year (date_year d)"
      using ne by (intro dby_mono) simp
    then show False using br assms by simp
  qed
qed

lemma date_year_range:
  assumes "valid_date d"
  shows "1 \<le> date_year d" "date_year d \<le> 9999"
proof -
  have br: "days_before_year (date_year d) < d" "d \<le> days_before_year (date_year d + 1)"
    using year_bracket [of d] by simp_all
  have d: "1 \<le> d" "d \<le> 3652059" using assms by (simp_all add: valid_date_def MAXORDINAL_def)
  show "1 \<le> date_year d"
  proof (rule ccontr)
    assume "\<not> 1 \<le> date_year d"
    then have "days_before_year (date_year d + 1) \<le> days_before_year 1"
      by (intro dby_mono) simp
    then show False using br d dby_values by simp
  qed
  show "date_year d \<le> 9999"
  proof (rule ccontr)
    assume "\<not> date_year d \<le> 9999"
    then have "days_before_year 10000 \<le> days_before_year (date_year d)"
      by (intro dby_mono) simp
    then show False using br d dby_values by simp
  qed
qed

lemma year_ge_2_iff:
  "2 \<le> date_year d \<longleftrightarrow> 366 \<le> d"
proof
  assume "2 \<le> date_year d"
  then have "days_before_year 2 \<le> days_before_year (date_year d)" by (rule dby_mono)
  then show "366 \<le> d" using year_bracket [of d] by (simp add: dby_values)
next
  assume d: "366 \<le> d"
  show "2 \<le> date_year d"
  proof (rule ccontr)
    assume "\<not> 2 \<le> date_year d"
    then have "days_before_year (date_year d + 1) \<le> days_before_year 2"
      by (intro dby_mono) simp
    then show False using year_bracket [of d] d by (simp add: dby_values)
  qed
qed

lemma date_add_Inr: "date_add d k = Inr e \<Longrightarrow> e = d + k"
  by (simp add: date_add_def Let_def split: if_splits)

lemma mk_date_error: "mk_date y m d = Inl e \<Longrightarrow> e = ValueError"
  by (simp add: mk_date_def split: if_splits)

lemma mk_date_year_out_of_range: "y < 1 \<or> 9999 < y \<Longrightarrow> mk_date y m d = Inl ValueError"
  by (auto simp: mk_date_def MINYEAR_def MAXYEAR_def)

lemma mk_date_values:
  "mk_date 1 6 15 = Inr 166" "mk_date 2 1 1 = Inr 366" "mk_date 9999 11 29 = Inr 3652027"
  "mk_date 9999 12 31 = Inr 3652059" "mk_date 1 1 1 = Inr 1"
  by (simp_all add: mk_date_def MINYEAR_def MAXYEAR_def days_in_month_def is_leap_def
      DAYS_IN_MONTH_def ymd2ord_def days_before_year_def days_before_month_def
      DAYS_BEFORE_MONTH_def)

lemma mk_date_2025_6_21: "mk_date 2025 6 21 = Inr 739423"
  by (simp add: mk_date_def MINYEAR_def MAXYEAR_def days_in_month_def is_leap_def
      DAYS_IN_MONTH_def ymd2ord_def days_before_year_def days_before_month_def
      DAYS_BEFORE_MONTH_def)

lemma mk_date_9999_6_15: "mk_date 9999 6 15 = Inr 3651860"
  by (simp add: mk_date_def MINYEAR_def MAXYEAR_def days_in_month_def is_leap_def
      DAYS_IN_MONTH_def ymd2ord_def days_before_year_def days_before_month_def
      DAYS_BEFORE_MONTH_def)

lemma date_year_166: "date_year 166 = 1"
  by (rule date_year_unique) (simp_all add: dby_values)

lemma date_year_values: "date_year 739423 = 2025" "date_year 3651860 = 9999"
  by (rule date_year_unique; simp add: days_before_year_def)+

lemma date_month_values: "date_month 739423 = 6" "date_month 739606 = 12"
  by (simp_all add: date_month_def ord2ymd_def Let_def DAYS_BEFORE_MONTH_def DAYS_IN_MONTH_def)

section \<open>Consistency of the date representation\<close>

lemma month_cases:
  fixes m :: int
  assumes "1 \<le> m" "m \<le> 12"
  obtains "m = 1" | "m = 2" | "m = 3" | "m = 4" | "m = 5" | "m = 6"
    | "m = 7" | "m = 8" | "m = 9" | "m = 10" | "m = 11" | "m = 12"
  using assms by (atomize_elim) arith

lemma days_in_month_pos: "1 \<le> m \<Longrightarrow> m \<le> 12 \<Longrightarrow> 28 \<le> days_in_month y m"
  by (erule (1) month_cases) (simp_all add: days_in_month_def DAYS_IN_MONTH_def)

lemma month_end_in_year:
  assumes "1 \<le> m" "m \<le> 12"
  shows "days_before_month y m + days_in_month y m \<le> (if is_leap y then 366 else 365)"
  using assms
  by (rule month_cases)
     (simp_all add: days_before_month_def days_in_month_def DAYS_IN_MONTH_def
        DAYS_BEFORE_MONTH_def)

lemma month_start_nonneg: "1 \<le> m \<Longrightarrow> m \<le> 12 \<Longrightarrow> 0 \<le> days_before_month y m"
  by (erule (1) month_cases) (simp_all add: days_before_month_def DAYS_BEFORE_MONTH_def)

lemma month_order:
  assumes "1 \<le> m" "m < m'" "m' \<le> 12"
  shows "days_before_month y m + days_in_month y m \<le> days_before_month y m'"
proof -
  have m: "1 \<le> m" "m \<le> 12" and m': "1 \<le> m'" "m' \<le> 12" using assms by simp_all
  from m show ?thesis
  proof (cases rule: month_cases)
    case 12
    then show ?thesis using assms by simp
  qed (use m' assms(2) in \<open>cases rule: month_cases;
        simp add: days_before_month_def days_in_month_def DAYS_IN_MONTH_def
          DAYS_BEFORE_MONTH_def\<close>)+
qed


lemma mk_date_Inr:
  assumes "mk_date y m d = Inr n"
  shows "1 \<le> y" "y \<le> 9999" "1 \<le> m" "m \<le> 12" "1 \<le> d" "d \<le> days_in_month y m"
    "n = days_before_year y + days_before_month y m + d"
  using assms by (simp_all add: mk_date_def MINYEAR_def MAXYEAR_def ymd2ord_def split: if_splits)

lemma mk_date_in_year:
  assumes "mk_date y m d = Inr n"
  shows "days_before_year y < n" "n \<le> days_before_year (y + 1)"
proof -
  note f = mk_date_Inr [OF assms]
  have "0 \<le> days_before_month y m" using f(3,4) by (rule month_start_nonneg)
  then show "days_before_year y < n" using f(5,7) by simp
  have "days_before_month y m + days_in_month y m \<le> (if is_leap y then 366 else 365)"
    using f(3,4) by (rule month_end_in_year)
  then show "n \<le> days_before_year (y + 1)" using f(6,7) by (simp add: dby_step split: if_splits)
qed

text \<open>The constructor yields a date of the range, and \<open>.year\<close> reads the year back.\<close>

lemma mk_date_year:
  assumes "mk_date y m d = Inr n"
  shows "valid_date n" "date_year n = y"
proof -
  note b = mk_date_in_year [OF assms] and f = mk_date_Inr [OF assms]
  show "date_year n = y" using b by (rule date_year_unique)
  have "days_before_year 1 \<le> days_before_year y" using f(1) by (rule dby_mono)
  moreover have "days_before_year (y + 1) \<le> days_before_year 10000"
    using f(2) by (intro dby_mono) simp
  ultimately show "valid_date n" using b by (simp add: valid_date_def MAXORDINAL_def dby_values)
qed

text \<open>
  The order of the ordinals is Python's order of dates, the lexicographic order of
  (year, month, day).
\<close>

lemma mk_date_less:
  assumes "mk_date y m d = Inr n" "mk_date y' m' d' = Inr n'"
    and "y < y' \<or> y = y' \<and> (m < m' \<or> m = m' \<and> d < d')"
  shows "n < n'"
proof -
  note f = mk_date_Inr [OF assms(1)] and f' = mk_date_Inr [OF assms(2)]
  consider (year) "y < y'" | (month) "y = y'" "m < m'" | (day) "y = y'" "m = m'" "d < d'"
    using assms(3) by blast
  then show ?thesis
  proof cases
    case year
    then have "days_before_year (y + 1) \<le> days_before_year y'" by (intro dby_mono) simp
    then show ?thesis
      using mk_date_in_year(2) [OF assms(1)] mk_date_in_year(1) [OF assms(2)] by simp
  next
    case month
    have "days_before_month y m + days_in_month y m \<le> days_before_month y m'"
      using f(3) month(2) f'(4) by (rule month_order)
    then show ?thesis using f(6,7) f'(5,7) month(1) by simp
  next
    case day
    then show ?thesis using f(7) f'(7) by simp
  qed
qed

lemma mk_date_order:
  assumes "mk_date y m d = Inr n" "mk_date y' m' d' = Inr n'"
  shows "n < n' \<longleftrightarrow> y < y' \<or> y = y' \<and> (m < m' \<or> m = m' \<and> d < d')"
proof
  assume "y < y' \<or> y = y' \<and> (m < m' \<or> m = m' \<and> d < d')"
  with assms show "n < n'" by (rule mk_date_less)
next
  assume lt: "n < n'"
  show "y < y' \<or> y = y' \<and> (m < m' \<or> m = m' \<and> d < d')"
  proof (rule ccontr)
    assume "\<not> (y < y' \<or> y = y' \<and> (m < m' \<or> m = m' \<and> d < d'))"
    then have "(y' < y \<or> y' = y \<and> (m' < m \<or> m' = m \<and> d' < d)) \<or> (y = y' \<and> m = m' \<and> d = d')"
      by auto
    then show False
    proof
      assume "y' < y \<or> y' = y \<and> (m' < m \<or> m' = m \<and> d' < d)"
      with assms(2,1) have "n' < n" by (rule mk_date_less)
      then show False using lt by simp
    next
      assume "y = y' \<and> m = m' \<and> d = d'"
      then have "n = n'" using assms by simp
      then show False using lt by simp
    qed
  qed
qed

section \<open>Solstices as ordinals\<close>

lemma winter_solstice_ord:
  assumes "1 \<le> y" "y \<le> 9999"
  shows "winter_solstice y = Inr (days_before_year (y + 1) - 10)"
  using assms
  by (simp add: winter_solstice_def mk_date_def MINYEAR_def MAXYEAR_def days_in_month_def
      DAYS_IN_MONTH_def ymd2ord_def days_before_month_def DAYS_BEFORE_MONTH_def dby_step)

lemma summer_solstice_ord:
  assumes "1 \<le> y" "y \<le> 9999"
  shows "summer_solstice y = Inr (days_before_year (y + 1) - 193)"
  using assms
  by (simp add: summer_solstice_def mk_date_def MINYEAR_def MAXYEAR_def days_in_month_def
      DAYS_IN_MONTH_def ymd2ord_def days_before_month_def DAYS_BEFORE_MONTH_def dby_step)

lemma solstice_out_of_range:
  assumes "y < 1 \<or> 9999 < y"
  shows "winter_solstice y = Inl ValueError" "summer_solstice y = Inl ValueError"
  using assms
  by (auto simp add: winter_solstice_def summer_solstice_def mk_date_def MINYEAR_def MAXYEAR_def)

lemma solstice_valid:
  "winter_solstice y = Inr s \<Longrightarrow> 1 \<le> s \<and> s \<le> MAXORDINAL"
  "summer_solstice y = Inr s \<Longrightarrow> 1 \<le> s \<and> s \<le> MAXORDINAL"
proof -
  have b: "1 \<le> days_before_year (y + 1) - 193 \<and> days_before_year (y + 1) - 10 \<le> MAXORDINAL"
    if y: "1 \<le> y" "y \<le> 9999"
  proof -
    have "days_before_year 2 \<le> days_before_year (y + 1)" using y by (intro dby_mono) simp
    moreover have "days_before_year (y + 1) \<le> days_before_year 10000"
      using y by (intro dby_mono) simp
    ultimately show ?thesis by (simp add: dby_values MAXORDINAL_def)
  qed
  show "winter_solstice y = Inr s \<Longrightarrow> 1 \<le> s \<and> s \<le> MAXORDINAL"
    using b winter_solstice_ord [of y] solstice_out_of_range(1) [of y]
    by (cases "1 \<le> y \<and> y \<le> 9999") auto
  show "summer_solstice y = Inr s \<Longrightarrow> 1 \<le> s \<and> s \<le> MAXORDINAL"
    using b summer_solstice_ord [of y] solstice_out_of_range(2) [of y]
    by (cases "1 \<le> y \<and> y \<le> 9999") auto
qed

lemma date_sub_twice:
  assumes "date_sub s 21 = Inr h" "date_sub h 1 = Inr e" "s \<le> MAXORDINAL"
  shows "date_sub s 22 = Inr e"
  using assms by (auto simp: date_sub_def date_add_def Let_def split: if_splits)

lemma solstice_sub_22:
  "summer_solstice y = Inr s \<Longrightarrow> date_sub s 21 = Inr h \<Longrightarrow> date_sub h 1 = Inr e
     \<Longrightarrow> date_sub s 22 = Inr e"
  "winter_solstice y = Inr s \<Longrightarrow> date_sub s 21 = Inr h \<Longrightarrow> date_sub h 1 = Inr e
     \<Longrightarrow> date_sub s 22 = Inr e"
  using solstice_valid [of y s] date_sub_twice [of s h e] by blast+

lemma solstice_values_2024:
  "winter_solstice 2024 = Inr 739241" "summer_solstice 2025 = Inr 739423"
  "winter_solstice 2025 = Inr 739606"
  by (simp_all add: winter_solstice_def summer_solstice_def mk_date_def MINYEAR_def MAXYEAR_def
      days_in_month_def is_leap_def DAYS_IN_MONTH_def ymd2ord_def days_before_year_def
      days_before_month_def DAYS_BEFORE_MONTH_def)

section \<open>Gapless lists of phases\<close>

lemma scan_phases_Some:
  "scan_phases ps d = Some ph \<Longrightarrow> ph \<in> set ps \<and> contains ph d"
  by (induction ps) (auto simp: contains_def split: if_splits)

lemma scan_phases_None:
  "scan_phases ps d = None \<longleftrightarrow> (\<forall>p \<in> set ps. \<not> contains p d)"
  by (induction ps) (auto simp: contains_def)

lemma gapless_tl: "gapless (p # ps) \<Longrightarrow> gapless ps"
  by (cases ps) simp_all

lemma gapless_after:
  assumes "gapless (p # ps)" "proper (p # ps)"
  shows "\<forall>q \<in> set ps. ph_end p < ph_start q"
  using assms
proof (induction ps arbitrary: p)
  case Nil
  then show ?case by simp
next
  case (Cons q ps)
  have q: "ph_start q = ph_end p + 1"
    using Cons.prems(1) date_add_Inr [of "ph_end p" 1 "ph_start q"] by simp
  have qq: "ph_start q \<le> ph_end q" using Cons.prems(2) by (simp add: proper_def)
  have "gapless (q # ps)" "proper (q # ps)"
    using Cons.prems by (simp_all add: proper_def)
  then have "\<forall>r \<in> set ps. ph_end q < ph_start r" by (rule Cons.IH)
  then show ?case using q qq by auto
qed

lemma gapless_start_le_last:
  assumes "gapless (p # ps)" "proper (p # ps)"
  shows "ph_start p \<le> ph_end (last (p # ps))"
proof (cases ps rule: rev_cases)
  case Nil
  then show ?thesis using assms by (simp add: proper_def)
next
  case (snoc qs q)
  then have "q \<in> set ps" by simp
  then have "ph_end p < ph_start q" using gapless_after [OF assms] by simp
  moreover have "ph_start q \<le> ph_end q" "ph_start p \<le> ph_end p"
    using assms(2) snoc by (simp_all add: proper_def)
  ultimately show ?thesis using snoc by simp
qed

lemma gapless_unique:
  assumes "gapless ps" "proper ps" "p \<in> set ps" "q \<in> set ps" "contains p d" "contains q d"
  shows "p = q"
  using assms
proof (induction ps)
  case Nil
  then show ?case by simp
next
  case (Cons a ps)
  have after: "\<forall>r \<in> set ps. ph_end a < ph_start r"
    using Cons.prems(1,2) by (rule gapless_after)
  have tl: "gapless ps" "proper ps"
    using Cons.prems(1,2) gapless_tl [of a ps] by (simp_all add: proper_def)
  show ?case
  proof (cases "p = a")
    case pa: True
    show ?thesis
    proof (cases "q = a")
      case True
      then show ?thesis using pa by simp
    next
      case False
      then have "q \<in> set ps" using Cons.prems(4) by simp
      then have "ph_end a < ph_start q" using after by simp
      then show ?thesis using pa Cons.prems(5,6) by (simp add: contains_def)
    qed
  next
    case pa: False
    then have p: "p \<in> set ps" using Cons.prems(3) by simp
    show ?thesis
    proof (cases "q = a")
      case True
      have "ph_end a < ph_start p" using after p by simp
      then show ?thesis using True Cons.prems(5,6) by (simp add: contains_def)
    next
      case False
      then have "q \<in> set ps" using Cons.prems(4) by simp
      then show ?thesis using Cons.IH tl p Cons.prems(5,6) by simp
    qed
  qed
qed

lemma gapless_cover:
  assumes "gapless (p # ps)" "proper (p # ps)"
  shows "(\<exists>q \<in> set (p # ps). contains q d)
           \<longleftrightarrow> ph_start p \<le> d \<and> d \<le> ph_end (last (p # ps))"
  using assms
proof (induction ps arbitrary: p)
  case Nil
  then show ?case by (simp add: contains_def)
next
  case (Cons q ps)
  have q: "ph_start q = ph_end p + 1"
    using Cons.prems(1) date_add_Inr [of "ph_end p" 1 "ph_start q"] by simp
  have pp: "ph_start p \<le> ph_end p" using Cons.prems(2) by (simp add: proper_def)
  have "gapless (q # ps)" "proper (q # ps)"
    using Cons.prems by (simp_all add: proper_def)
  then have IH: "(\<exists>r \<in> set (q # ps). contains r d)
           \<longleftrightarrow> ph_start q \<le> d \<and> d \<le> ph_end (last (q # ps))"
    by (rule Cons.IH)
  have le: "ph_start q \<le> ph_end (last (q # ps))"
    using \<open>gapless (q # ps)\<close> \<open>proper (q # ps)\<close> by (rule gapless_start_le_last)
  have "(\<exists>r \<in> set (p # q # ps). contains r d) \<longleftrightarrow> contains p d \<or> (\<exists>r \<in> set (q # ps). contains r d)"
    by simp
  also have "\<dots> \<longleftrightarrow> contains p d \<or> (ph_start q \<le> d \<and> d \<le> ph_end (last (q # ps)))"
    using IH by simp
  also have "\<dots> \<longleftrightarrow> ph_start p \<le> d \<and> d \<le> ph_end (last (p # q # ps))"
    using q pp le by (auto simp: contains_def)
  finally show ?case .
qed

lemma gapless_nth:
  "gapless ps \<Longrightarrow> Suc i < length ps \<Longrightarrow>
     date_add (ph_end (ps ! i)) 1 = Inr (ph_start (ps ! Suc i))"
proof (induction ps arbitrary: i rule: gapless.induct)
  case 1
  then show ?case by simp
next
  case (2 p)
  then show ?case by simp
next
  case (3 p q ps)
  show ?case
  proof (cases i)
    case 0
    then show ?thesis using "3.prems" by simp
  next
    case (Suc j)
    then show ?thesis using "3.IH" [of j] "3.prems" by simp
  qed
qed

lemma proper_set: "proper ps \<longleftrightarrow> (\<forall>p \<in> set ps. ph_start p \<le> ph_end p)"
  by (simp add: proper_def list_all_iff)

section \<open>The cycle built with the default constants\<close>

lemma build_cycle_layout:
  assumes wy: "1 \<le> wy" "wy \<le> 9998"
  defines "E \<equiv> days_before_year (wy + 1)"
  defines "L \<equiv> (if is_leap (wy + 1) then 366 else 365 :: int)"
  shows "build_cycle wy = Inr (cycle_layout E L)"
proof -
  have ws: "winter_solstice wy = Inr (E - 10)"
    using wy by (simp add: winter_solstice_ord E_def)
  have E': "days_before_year (wy + 1 + 1) = E + L"
    unfolding E_def L_def by (rule dby_step)
  have ss: "summer_solstice (wy + 1) = Inr (E + L - 193)"
    using wy summer_solstice_ord [of "wy + 1"] E' by simp
  have wsn: "winter_solstice (wy + 1) = Inr (E + L - 10)"
    using wy winter_solstice_ord [of "wy + 1"] E' by simp
  have "days_before_year 2 \<le> days_before_year (wy + 1)"
    using wy by (intro dby_mono) simp
  then have lo: "365 \<le> E" by (simp add: E_def dby_values)
  have "days_before_year (wy + 1 + 1) \<le> days_before_year 10000"
    using wy by (intro dby_mono) simp
  then have hi: "E + L \<le> 3652059" unfolding E' dby_values .
  have L: "L = 365 \<or> L = 366" by (simp add: L_def)
  from L show ?thesis
  proof
    assume "L = 365"
    then show ?thesis
      using lo hi
      by (simp add: build_cycle_def build_cycle_cfg_def ws ss wsn ebind_def date_add_def
          date_sub_def add_def FIXED_DAYS_def HARD_DAYS_def WEEK_def MAXORDINAL_def Let_def
          cycle_layout_def)
  next
    assume "L = 366"
    then show ?thesis
      using lo hi
      by (simp add: build_cycle_def build_cycle_cfg_def ws ss wsn ebind_def date_add_def
          date_sub_def add_def FIXED_DAYS_def HARD_DAYS_def WEEK_def MAXORDINAL_def Let_def
          cycle_layout_def)
  qed
qed

lemma build_cycle_out_of_range:
  assumes "wy < 1 \<or> 9998 < wy"
  shows "build_cycle wy = Inl ValueError"
proof (cases "wy < 1 \<or> 9999 < wy")
  case True
  then show ?thesis
    by (simp add: build_cycle_def build_cycle_cfg_def solstice_out_of_range ebind_def)
next
  case False
  then have "wy = 9999" using assms by simp
  then show ?thesis
    by (simp add: build_cycle_def build_cycle_cfg_def solstice_out_of_range
        winter_solstice_ord ebind_def)
qed

lemma build_cycle_range:
  assumes "build_cycle wy = Inr ps"
  shows "1 \<le> wy" "wy \<le> 9998"
proof -
  have "\<not> (wy < 1 \<or> 9998 < wy)"
    using assms build_cycle_out_of_range [of wy] by auto
  then show "1 \<le> wy" "wy \<le> 9998" by simp_all
qed

lemma build_cycle_ok:
  assumes "1 \<le> wy" "wy \<le> 9998"
  shows "\<exists>ps. build_cycle wy = Inr ps"
  using build_cycle_layout [OF assms] by blast

lemma cycle_bounds:
  assumes wy: "1 \<le> wy" "wy \<le> 9998"
  shows "365 \<le> days_before_year (wy + 1)" "days_before_year (wy + 2) \<le> 3652059"
proof -
  have "days_before_year 2 \<le> days_before_year (wy + 1)"
    using wy by (intro dby_mono) simp
  then show "365 \<le> days_before_year (wy + 1)" by (simp add: dby_values)
  have "days_before_year (wy + 2) \<le> days_before_year 10000"
    using wy by (intro dby_mono) simp
  then show "days_before_year (wy + 2) \<le> 3652059" unfolding dby_values .
qed

lemma build_cycle_shape:
  assumes ps: "build_cycle wy = Inr ps"
  shows "gapless ps" "proper ps" "length ps = 10"
    "ph_start (hd ps) = days_before_year (wy + 1) - 31"
    "ph_end (last ps) = days_before_year (wy + 2) - 32"
proof -
  have wy: "1 \<le> wy" "wy \<le> 9998" using ps by (rule build_cycle_range)+
  define E where "E = days_before_year (wy + 1)"
  define L :: int where "L = (if is_leap (wy + 1) then 366 else 365)"
  have E': "days_before_year (wy + 2) = E + L"
    unfolding E_def L_def by (rule dby_step2)
  have lo: "365 \<le> E" and hi: "E + L \<le> 3652059"
    using cycle_bounds [OF wy] by (simp_all add: E_def E')
  have L: "L = 365 \<or> L = 366" by (simp add: L_def)
  note lay = build_cycle_layout [OF wy, folded E_def L_def]
  show "gapless ps"
    using lay ps lo hi L by (auto simp: cycle_layout_def date_add_def MAXORDINAL_def)
  show "proper ps"
    using lay ps L by (auto simp: cycle_layout_def proper_def)
  show "length ps = 10"
    using lay ps by (auto simp: cycle_layout_def)
  show "ph_start (hd ps) = days_before_year (wy + 1) - 31"
    using lay ps by (auto simp: cycle_layout_def E_def)
  show "ph_end (last ps) = days_before_year (wy + 2) - 32"
    using lay ps by (auto simp: cycle_layout_def E')
qed

lemma build_cycle_unfold:
  assumes ps: "build_cycle wy = Inr ps"
  obtains E L where "L = 365 \<or> L = 366" "365 \<le> E" "E + L \<le> 3652059"
    "winter_solstice wy = Inr (E - 10)"
    "summer_solstice (wy + 1) = Inr (E + L - 193)"
    "winter_solstice (wy + 1) = Inr (E + L - 10)"
    "ps = cycle_layout E L"
    "E = days_before_year (wy + 1)" "E + L = days_before_year (wy + 2)"
proof -
  have wy: "1 \<le> wy" "wy \<le> 9998" using ps by (rule build_cycle_range)+
  define E where "E = days_before_year (wy + 1)"
  define L :: int where "L = (if is_leap (wy + 1) then 366 else 365)"
  have E': "days_before_year (wy + 2) = E + L"
    unfolding E_def L_def by (rule dby_step2)
  have lo: "365 \<le> E" and hi: "E + L \<le> 3652059"
    using cycle_bounds [OF wy] by (simp_all add: E_def E')
  have L: "L = 365 \<or> L = 366" by (simp add: L_def)
  have ws: "winter_solstice wy = Inr (E - 10)"
    using wy by (simp add: winter_solstice_ord E_def)
  have ss: "summer_solstice (wy + 1) = Inr (E + L - 193)"
    using wy summer_solstice_ord [of "wy + 1"] E' by (simp add: add.commute)
  have wsn: "winter_solstice (wy + 1) = Inr (E + L - 10)"
    using wy winter_solstice_ord [of "wy + 1"] E' by (simp add: add.commute)
  have "ps = cycle_layout E L"
    using build_cycle_layout [OF wy, folded E_def L_def] ps by simp
  then show ?thesis using that L lo hi ws ss wsn E' E_def by simp
qed

lemma build_cycle_2024: "build_cycle 2024 = Inr (cycle_layout 739251 365)"
  using build_cycle_layout [of 2024] by (simp add: days_before_year_def is_leap_def)

lemma hard_phase_length:
  assumes "build_cycle wy = Inr ps" "p \<in> set ps" "ph_kind p = ''hard''"
  shows "ph_end p = ph_start p + 41"
proof -
  obtain E L where "ps = cycle_layout E L"
    using assms(1) by (rule build_cycle_unfold)
  then show ?thesis using assms(2,3) by (auto simp: cycle_layout_def)
qed

lemma cycle_scan_None:
  assumes ps: "build_cycle wy = Inr ps"
  shows "scan_phases ps d = None \<longleftrightarrow>
           \<not> (days_before_year (wy + 1) - 31 \<le> d \<and> d \<le> days_before_year (wy + 2) - 32)"
proof -
  note sh = build_cycle_shape [OF ps]
  obtain p qs where pq: "ps = p # qs" using sh(3) by (cases ps) simp_all
  have "(\<exists>q \<in> set ps. contains q d) \<longleftrightarrow> ph_start (hd ps) \<le> d \<and> d \<le> ph_end (last ps)"
    using gapless_cover [of p qs d] sh(1,2) unfolding pq by simp
  then show ?thesis unfolding scan_phases_None sh(4,5) by blast
qed

lemma cycle_member_span:
  assumes ps: "build_cycle wy = Inr ps" and q: "q \<in> set ps" "contains q d"
  shows "days_before_year (wy + 1) - 31 \<le> d" "d \<le> days_before_year (wy + 2) - 32"
proof -
  have "scan_phases ps d \<noteq> None" using q by (auto simp: scan_phases_None)
  then have "days_before_year (wy + 1) - 31 \<le> d \<and> d \<le> days_before_year (wy + 2) - 32"
    using cycle_scan_None [OF ps, of d] by simp
  then show "days_before_year (wy + 1) - 31 \<le> d" "d \<le> days_before_year (wy + 2) - 32"
    by simp_all
qed

lemma cycle_year_unique:
  assumes "days_before_year (wy + 1) - 31 \<le> d" "d \<le> days_before_year (wy + 2) - 32"
    and "days_before_year (wy' + 1) - 31 \<le> d" "d \<le> days_before_year (wy' + 2) - 32"
  shows "wy = wy'"
proof (rule ccontr)
  assume ne: "wy \<noteq> wy'"
  show False
  proof (cases "wy < wy'")
    case True
    then have "days_before_year (wy + 2) \<le> days_before_year (wy' + 1)"
      by (intro dby_mono) simp
    then show False using assms by simp
  next
    case False
    then have "days_before_year (wy' + 2) \<le> days_before_year (wy + 1)"
      using ne by (intro dby_mono) simp
    then show False using assms by simp
  qed
qed

lemma phase_unique:
  assumes "build_cycle wy = Inr ps" "p \<in> set ps" "contains p d"
    and "build_cycle wy' = Inr ps'" "q \<in> set ps'" "contains q d"
  shows "p = q"
proof -
  have "wy = wy'"
    using cycle_member_span [OF assms(1-3)] cycle_member_span [OF assms(4-6)]
    by (rule cycle_year_unique)
  then have "ps' = ps" using assms(1,4) by simp
  then show ?thesis
    using gapless_unique [of ps p q d] build_cycle_shape(1,2) [OF assms(1)] assms(2,3,5,6)
    by simp
qed

lemma variable_phases_default:
  "\<forall>ps. build_cycle wy = Inr ps \<longrightarrow>
     (\<exists>ss wsn v1 v2 sh.
        summer_solstice (wy + 1) = Inr ss \<and> winter_solstice (wy + 1) = Inr wsn \<and>
        filter ph_variable ps = [v1, v2] \<and>
        ph_name v1 = ''Summer Transit 2'' \<and> date_sub ss 22 = Inr (ph_end v1) \<and>
        ph_name v2 = ''Winter Transit 2'' \<and> ph_pos v2 = Some ''before'' \<and>
        date_sub wsn 22 = Inr (ph_end v2) \<and>
        sh \<in> set ps \<and> ph_name sh = ''Summer Hard'' \<and>
        date_add (ph_end v1) 1 = Inr (ph_start sh) \<and> date_sub ss 21 = Inr (ph_start sh) \<and>
        (\<forall>ps'. build_cycle (wy + 1) = Inr ps' \<longrightarrow>
           ph_name (hd ps') = ''Winter Hard'' \<and>
           date_add (ph_end v2) 1 = Inr (ph_start (hd ps')) \<and>
           date_sub wsn 21 = Inr (ph_start (hd ps'))))"
proof (intro allI impI)
  fix ps
  assume ps: "build_cycle wy = Inr ps"
  then obtain E L where *: "L = 365 \<or> L = 366" "365 \<le> E" "E + L \<le> 3652059"
    "summer_solstice (wy + 1) = Inr (E + L - 193)"
    "winter_solstice (wy + 1) = Inr (E + L - 10)"
    "ps = cycle_layout E L" "E + L = days_before_year (wy + 2)"
    by (rule build_cycle_unfold)
  define v1 where "v1 = ps ! 4"
  define sh where "sh = ps ! 5"
  define v2 where "v2 = ps ! 9"
  have v: "filter ph_variable ps = [v1, v2]"
    "ph_name v1 = ''Summer Transit 2''" "ph_end v1 = E + L - 215"
    "ph_name v2 = ''Winter Transit 2''" "ph_pos v2 = Some ''before''" "ph_end v2 = E + L - 32"
    "sh \<in> set ps" "ph_name sh = ''Summer Hard''" "ph_start sh = E + L - 214"
    unfolding v1_def v2_def sh_def *(6) by (simp_all add: cycle_layout_def)
  have r: "0 < E + L - 215" "E + L - 10 \<le> 3652059" using *(1,2,3) by auto
  have a: "date_sub (E + L - 193) 22 = Inr (ph_end v1)"
    "date_sub (E + L - 10) 22 = Inr (ph_end v2)"
    "date_add (ph_end v1) 1 = Inr (ph_start sh)"
    "date_sub (E + L - 193) 21 = Inr (ph_start sh)"
    unfolding v using r by (simp_all add: date_sub_def date_add_def MAXORDINAL_def)
  have n: "\<forall>ps'. build_cycle (wy + 1) = Inr ps' \<longrightarrow>
           ph_name (hd ps') = ''Winter Hard'' \<and>
           date_add (ph_end v2) 1 = Inr (ph_start (hd ps')) \<and>
           date_sub (E + L - 10) 21 = Inr (ph_start (hd ps'))"
  proof (intro allI impI)
    fix ps'
    assume "build_cycle (wy + 1) = Inr ps'"
    then have "gapless ps'" "length ps' = 10"
      "ph_start (hd ps') = days_before_year (wy + 1 + 1) - 31"
      by (rule build_cycle_shape)+
    moreover have "wy + 1 + 1 = wy + 2" by simp
    ultimately have s: "ph_start (hd ps') = E + L - 31" using *(7) by simp
    obtain E2 L2 where "ps' = cycle_layout E2 L2"
      using \<open>build_cycle (wy + 1) = Inr ps'\<close> by (rule build_cycle_unfold)
    then have "ph_name (hd ps') = ''Winter Hard''" by (simp add: cycle_layout_def)
    then show "ph_name (hd ps') = ''Winter Hard'' \<and>
           date_add (ph_end v2) 1 = Inr (ph_start (hd ps')) \<and>
           date_sub (E + L - 10) 21 = Inr (ph_start (hd ps'))"
      unfolding s v using r by (simp add: date_sub_def date_add_def MAXORDINAL_def)
  qed
  show "\<exists>ss wsn v1 v2 sh.
        summer_solstice (wy + 1) = Inr ss \<and> winter_solstice (wy + 1) = Inr wsn \<and>
        filter ph_variable ps = [v1, v2] \<and>
        ph_name v1 = ''Summer Transit 2'' \<and> date_sub ss 22 = Inr (ph_end v1) \<and>
        ph_name v2 = ''Winter Transit 2'' \<and> ph_pos v2 = Some ''before'' \<and>
        date_sub wsn 22 = Inr (ph_end v2) \<and>
        sh \<in> set ps \<and> ph_name sh = ''Summer Hard'' \<and>
        date_add (ph_end v1) 1 = Inr (ph_start sh) \<and> date_sub ss 21 = Inr (ph_start sh) \<and>
        (\<forall>ps'. build_cycle (wy + 1) = Inr ps' \<longrightarrow>
           ph_name (hd ps') = ''Winter Hard'' \<and>
           date_add (ph_end v2) 1 = Inr (ph_start (hd ps')) \<and>
           date_sub wsn 21 = Inr (ph_start (hd ps')))"
    using *(4,5) v(1,2,4,5,7,8) a n by blast
qed

section \<open>Cycles built with other constants\<close>

lemma add_as_filter:
  "add phases name season kind start end' pos variable =
     phases @ filter (\<lambda>p. ph_start p \<le> ph_end p)
       [\<lparr>ph_name = name, ph_season = season, ph_kind = kind, ph_start = start,
         ph_end = end', ph_pos = pos, ph_variable = variable\<rparr>]"
  by (simp add: add_def)

lemma build_cycle_cfg_filters_candidates:
  "build_cycle_cfg fixed_days hard_days wy =
     map_sum id (filter (\<lambda>p. ph_start p \<le> ph_end p)) (cycle_candidates fixed_days hard_days wy)"
  unfolding build_cycle_cfg_def cycle_candidates_def Let_def map_sum_ebind
  unfolding add_as_filter append_phase_def
  by (simp only: map_sum.simps filter_append append_Nil filter.simps id_apply)

lemma cycle_candidates_anchors:
  assumes "cycle_candidates fixed_days hard_days wy = Inr cs"
  shows "\<exists>ws ss wsn. winter_solstice wy = Inr ws \<and> summer_solstice (wy + 1) = Inr ss \<and>
           winter_solstice (wy + 1) = Inr wsn \<and>
           (\<forall>p \<in> set cs.
              (ph_variable p \<and> ph_season p = ''Summer'' \<longrightarrow> date_sub ss 22 = Inr (ph_end p)) \<and>
              (ph_variable p \<and> ph_season p = ''Winter'' \<longrightarrow> date_sub wsn 22 = Inr (ph_end p)) \<and>
              (ph_kind p = ''hard'' \<and> ph_season p = ''Winter'' \<longrightarrow>
                 date_sub ws 21 = Inr (ph_start p)) \<and>
              (ph_kind p = ''hard'' \<and> ph_season p = ''Summer'' \<longrightarrow>
                 date_sub ss 21 = Inr (ph_start p)))"
  using assms unfolding cycle_candidates_def Let_def append_phase_def ebind_eq_Inr
  by (auto intro: solstice_sub_22)

lemma build_cycle_cfg_anchors:
  assumes "build_cycle_cfg fixed_days hard_days wy = Inr ps"
  shows "\<exists>ws ss wsn. winter_solstice wy = Inr ws \<and> summer_solstice (wy + 1) = Inr ss \<and>
         winter_solstice (wy + 1) = Inr wsn \<and>
         (\<forall>p \<in> set ps.
            (ph_variable p \<and> ph_season p = ''Summer'' \<longrightarrow> date_sub ss 22 = Inr (ph_end p)) \<and>
            (ph_variable p \<and> ph_season p = ''Winter'' \<longrightarrow> date_sub wsn 22 = Inr (ph_end p)) \<and>
            (ph_kind p = ''hard'' \<and> ph_season p = ''Winter'' \<longrightarrow>
               date_sub ws 21 = Inr (ph_start p)) \<and>
            (ph_kind p = ''hard'' \<and> ph_season p = ''Summer'' \<longrightarrow>
               date_sub ss 21 = Inr (ph_start p)))"
proof -
  obtain cs where cs: "cycle_candidates fixed_days hard_days wy = Inr cs"
    and ps: "ps = filter (\<lambda>p. ph_start p \<le> ph_end p) cs"
    using assms unfolding build_cycle_cfg_filters_candidates
    by (cases "cycle_candidates fixed_days hard_days wy") auto
  have "set ps \<subseteq> set cs" unfolding ps by auto
  then show ?thesis using cycle_candidates_anchors [OF cs] by blast
qed

lemma cycle_candidates_100_0_2024:
  "cycle_candidates 100 0 2024 = Inr
     [\<lparr>ph_name = ''Winter Hard'', ph_season = ''Winter'', ph_kind = ''hard'',
        ph_start = 739220, ph_end = 739219, ph_pos = None, ph_variable = False\<rparr>,
      \<lparr>ph_name = ''Winter Transit 1'', ph_season = ''Winter'', ph_kind = ''transit'',
        ph_start = 739220, ph_end = 739319, ph_pos = Some ''after'', ph_variable = False\<rparr>,
      \<lparr>ph_name = ''Winter Transit 2'', ph_season = ''Winter'', ph_kind = ''transit'',
        ph_start = 739320, ph_end = 739419, ph_pos = Some ''after'', ph_variable = False\<rparr>,
      \<lparr>ph_name = ''Summer Transit 1'', ph_season = ''Summer'', ph_kind = ''transit'',
        ph_start = 739420, ph_end = 739519, ph_pos = None, ph_variable = False\<rparr>,
      \<lparr>ph_name = ''Summer Transit 2'', ph_season = ''Summer'', ph_kind = ''transit'',
        ph_start = 739520, ph_end = 739401, ph_pos = None, ph_variable = True\<rparr>,
      \<lparr>ph_name = ''Summer Hard'', ph_season = ''Summer'', ph_kind = ''hard'',
        ph_start = 739402, ph_end = 739401, ph_pos = None, ph_variable = False\<rparr>,
      \<lparr>ph_name = ''Summer Transit 1'', ph_season = ''Summer'', ph_kind = ''transit'',
        ph_start = 739402, ph_end = 739501, ph_pos = None, ph_variable = False\<rparr>,
      \<lparr>ph_name = ''Summer Transit 2'', ph_season = ''Summer'', ph_kind = ''transit'',
        ph_start = 739502, ph_end = 739601, ph_pos = None, ph_variable = False\<rparr>,
      \<lparr>ph_name = ''Winter Transit 1'', ph_season = ''Winter'', ph_kind = ''transit'',
        ph_start = 739602, ph_end = 739701, ph_pos = Some ''before'', ph_variable = False\<rparr>,
      \<lparr>ph_name = ''Winter Transit 2'', ph_season = ''Winter'', ph_kind = ''transit'',
        ph_start = 739702, ph_end = 739584, ph_pos = Some ''before'', ph_variable = True\<rparr>]"
  by (simp add: cycle_candidates_def solstice_values_2024 ebind_simps date_add_def date_sub_def
      MAXORDINAL_def Let_def append_phase_def)

lemma build_cycle_cfg_30_42_2024:
  "\<exists>ps. build_cycle_cfg 30 42 2024 = Inr ps \<and>
     \<lparr>ph_name = ''Summer Transit 2'', ph_season = ''Summer'', ph_kind = ''transit'',
       ph_start = 739352, ph_end = 739401, ph_pos = None, ph_variable = True\<rparr> \<in> set ps"
  by (simp add: build_cycle_cfg_def solstice_values_2024 ebind_simps date_add_def date_sub_def
      MAXORDINAL_def Let_def add_def)

section \<open>Locating the phase of a date\<close>

lemma scan_cycles_sound:
  "scan_cycles wys d = Inr ph \<Longrightarrow>
     \<exists>wy \<in> set wys. \<exists>ps. build_cycle wy = Inr ps \<and> ph \<in> set ps \<and> contains ph d"
proof (induction wys)
  case Nil
  then show ?case by simp
next
  case (Cons wy wys)
  then show ?case
    by (auto simp: ebind_def split: sum.splits option.splits dest: scan_phases_Some)
qed

lemma find_phase_sound:
  assumes "find_phase d = Inr ph"
  shows "\<exists>wy ps. build_cycle wy = Inr ps \<and> ph \<in> set ps \<and> contains ph d"
  using scan_cycles_sound [OF assms [unfolded find_phase_def]] by blast

lemma scan_cycles_hit:
  assumes "build_cycle wy = Inr ps"
    and "days_before_year (wy + 1) - 31 \<le> d" "d \<le> days_before_year (wy + 2) - 32"
  shows "\<exists>ph. scan_cycles (wy # wys) d = Inr ph \<and> contains ph d"
proof -
  have "scan_phases ps d \<noteq> None" using cycle_scan_None [OF assms(1), of d] assms(2,3) by simp
  then obtain ph where ph: "scan_phases ps d = Some ph" by auto
  then have "contains ph d" using scan_phases_Some by blast
  then show ?thesis using ph assms(1) by (simp add: ebind_def)
qed

lemma scan_cycles_miss:
  assumes "build_cycle wy = Inr ps"
    and "\<not> (days_before_year (wy + 1) - 31 \<le> d \<and> d \<le> days_before_year (wy + 2) - 32)"
  shows "scan_cycles (wy # wys) d = scan_cycles wys d"
proof -
  have "scan_phases ps d = None" using cycle_scan_None [OF assms(1), of d] assms(2) by simp
  then show ?thesis using assms(1) by (simp add: ebind_def)
qed

lemma scan_cycles_raise:
  assumes "wy < 1 \<or> 9998 < wy"
  shows "scan_cycles (wy # wys) d = Inl ValueError"
  using build_cycle_out_of_range [OF assms] by (simp add: ebind_def)

lemma find_phase_early_year:
  assumes "date_year d < 2 \<or> 9999 < date_year d"
  shows "find_phase d = Inl ValueError"
  unfolding find_phase_def using assms by (intro scan_cycles_raise) auto

lemma find_phase_in_previous_cycle:
  assumes y: "2 \<le> date_year d" "date_year d \<le> 9999"
    and d: "d \<le> days_before_year (date_year d + 1) - 32"
  shows "\<exists>ph. find_phase d = Inr ph \<and> contains ph d"
proof -
  define y where "y = date_year d"
  have br: "days_before_year y < d" using year_bracket [of d] by (simp add: y_def)
  obtain ps where ps: "build_cycle (y - 1) = Inr ps"
    using build_cycle_ok [of "y - 1"] y by (auto simp: y_def)
  have e: "y - 1 + 1 = y" "y - 1 + 2 = y + 1" by simp_all
  have 1: "days_before_year (y - 1 + 1) - 31 \<le> d" unfolding e using br by simp
  have "d \<le> days_before_year (y + 1) - 32" unfolding y_def by (rule d)
  then have 2: "d \<le> days_before_year (y - 1 + 2) - 32" unfolding e .
  show ?thesis
    unfolding find_phase_def y_def [symmetric] using ps 1 2 by (rule scan_cycles_hit)
qed

lemma find_phase_in_own_cycle:
  assumes y: "2 \<le> date_year d" "date_year d \<le> 9998"
    and d: "days_before_year (date_year d + 1) - 32 < d"
  shows "\<exists>ph. find_phase d = Inr ph \<and> contains ph d"
proof -
  define y where "y = date_year d"
  have br: "d \<le> days_before_year (y + 1)" using year_bracket [of d] by (simp add: y_def)
  obtain ps1 where ps1: "build_cycle (y - 1) = Inr ps1"
    using build_cycle_ok [of "y - 1"] y by (auto simp: y_def)
  obtain ps where ps: "build_cycle y = Inr ps"
    using build_cycle_ok [of y] y by (auto simp: y_def)
  have e: "y - 1 + 1 = y" "y - 1 + 2 = y + 1" by simp_all
  have "\<not> d \<le> days_before_year (y + 1) - 32" unfolding y_def using d by simp
  then have "\<not> (days_before_year (y - 1 + 1) - 31 \<le> d \<and> d \<le> days_before_year (y - 1 + 2) - 32)"
    unfolding e by simp
  with ps1 have skip: "scan_cycles [y - 1, y, y + 1] d = scan_cycles [y, y + 1] d"
    by (rule scan_cycles_miss)
  have "days_before_year (y + 1) - 32 < d" unfolding y_def by (rule d)
  then have 1: "days_before_year (y + 1) - 31 \<le> d" by simp
  have "days_before_year (y + 1) + 365 \<le> days_before_year (y + 2)"
    by (simp add: dby_step2)
  then have 2: "d \<le> days_before_year (y + 2) - 32" using br by simp
  show ?thesis
    unfolding find_phase_def y_def [symmetric] skip using ps 1 2 by (rule scan_cycles_hit)
qed

lemma find_phase_last_days:
  assumes y: "date_year d = 9999"
    and d: "days_before_year (date_year d + 1) - 32 < d"
  shows "find_phase d = Inl ValueError"
proof -
  obtain ps1 where ps1: "build_cycle (9999 - 1) = Inr ps1"
    using build_cycle_ok [of "9999 - 1"] by auto
  have "days_before_year 10000 - 32 < d" using d unfolding y by simp
  then have "\<not> (days_before_year (9999 - 1 + 1) - 31 \<le> d \<and> d \<le> days_before_year (9999 - 1 + 2) - 32)"
    by simp
  with ps1 have skip: "scan_cycles [9999 - 1, 9999, 9999 + 1] d = scan_cycles [9999, 9999 + 1] d"
    by (rule scan_cycles_miss)
  show ?thesis
    unfolding find_phase_def y skip by (rule scan_cycles_raise) simp
qed

lemma find_phase_never_runtime_error: "find_phase d \<noteq> Inl RuntimeError"
proof (cases "date_year d < 2 \<or> 9999 < date_year d")
  case True
  then show ?thesis by (simp add: find_phase_early_year)
next
  case y: False
  show ?thesis
  proof (cases "d \<le> days_before_year (date_year d + 1) - 32")
    case True
    then show ?thesis using find_phase_in_previous_cycle [of d] y by auto
  next
    case d: False
    show ?thesis
    proof (cases "date_year d = 9999")
      case True
      then show ?thesis using find_phase_last_days [of d] d by simp
    next
      case False
      then show ?thesis using find_phase_in_own_cycle [of d] d y by auto
    qed
  qed
qed

lemma find_phase_in_range:
  assumes "366 \<le> d" "d \<le> 3652027"
  shows "\<exists>ph. find_phase d = Inr ph \<and> contains ph d"
proof -
  have y2: "2 \<le> date_year d" using assms(1) by (simp add: year_ge_2_iff)
  have y9: "date_year d \<le> 9999"
    using assms by (intro date_year_range) (simp add: valid_date_def MAXORDINAL_def)
  show ?thesis
  proof (cases "d \<le> days_before_year (date_year d + 1) - 32")
    case True
    with y2 y9 show ?thesis by (rule find_phase_in_previous_cycle)
  next
    case d: False
    have "date_year d \<noteq> 9999"
    proof
      assume "date_year d = 9999"
      then show False using d assms(2) by (simp add: dby_values)
    qed
    then have "date_year d \<le> 9998" using y9 by simp
    then show ?thesis using d y2 by (intro find_phase_in_own_cycle) simp_all
  qed
qed

lemma find_phase_out_of_range:
  assumes "d < 366 \<or> 3652027 < d"
  shows "find_phase d = Inl ValueError"
proof (cases "d < 366")
  case True
  then have "\<not> 2 \<le> date_year d" by (simp add: year_ge_2_iff)
  then show ?thesis by (intro find_phase_early_year) simp
next
  case False
  then have d: "3652027 < d" using assms by simp
  show ?thesis
  proof (cases "9999 < date_year d")
    case True
    then show ?thesis by (intro find_phase_early_year) simp
  next
    case y: False
    have "date_year d = 9999"
    proof (rule ccontr)
      assume "date_year d \<noteq> 9999"
      then have "days_before_year (date_year d + 1) \<le> days_before_year 9999"
        using y by (intro dby_mono) simp
      moreover have "days_before_year 9999 = 3651694" by (simp add: days_before_year_def)
      ultimately show False using year_bracket [of d] d by simp
    qed
    then show ?thesis using d by (intro find_phase_last_days) (simp_all add: dby_values)
  qed
qed

lemma find_phase_error:
  assumes "find_phase d = Inl e"
  shows "e = ValueError"
proof (cases "366 \<le> d \<and> d \<le> 3652027")
  case True
  then show ?thesis using find_phase_in_range [of d] assms by auto
next
  case False
  then have "find_phase d = Inl ValueError" by (intro find_phase_out_of_range) auto
  then show ?thesis using assms by simp
qed

lemma find_phase_2025_6_21:
  "find_phase 739423 =
     Inr \<lparr>ph_name = ''Summer Hard'', ph_season = ''Summer'', ph_kind = ''hard'',
          ph_start = 739402, ph_end = 739443, ph_pos = None, ph_variable = False\<rparr>"
  by (simp add: find_phase_def date_year_values build_cycle_2024 ebind_def cycle_layout_def)

lemma py_index_in_bounds:
  "0 \<le> i \<Longrightarrow> i < int (length xs) \<Longrightarrow> py_index xs i = Inr (xs ! nat i)"
  by (simp add: py_index_def)

section \<open>Locating the solstices around a date\<close>

lemma last_next_solstice_cases:
  assumes y: "2 \<le> date_year d" "date_year d \<le> 9998"
  defines "E \<equiv> days_before_year (date_year d)"
  defines "L \<equiv> (if is_leap (date_year d) then 366 else 365 :: int)"
  defines "L' \<equiv> (if is_leap (date_year d + 1) then 366 else 365 :: int)"
  shows "last_next_solstice d =
           Inr (if d < E + L - 193 then (E - 10, E + L - 193)
                else if d < E + L - 10 then (E + L - 193, E + L - 10)
                else (E + L - 10, E + L + L' - 193))"
proof -
  define yr where "yr = date_year d"
  have br: "E < d" "d \<le> E + L"
    using year_bracket [of d] dby_step [of "date_year d"] by (simp_all add: E_def L_def)
  have e: "yr - 1 + 1 = yr" by simp
  have E1: "days_before_year (yr + 1) = E + L"
    unfolding E_def L_def yr_def by (rule dby_step)
  have E2: "days_before_year (yr + 1 + 1) = E + L + L'"
    using dby_step [of "yr + 1"] E1 by (simp add: L'_def yr_def)
  have s1: "mk_date (yr - 1) 6 21 = Inr (E - 193)"
    using summer_solstice_ord [of "yr - 1"] y unfolding e
    by (simp add: summer_solstice_def yr_def E_def)
  have s2: "mk_date (yr - 1) 12 21 = Inr (E - 10)"
    using winter_solstice_ord [of "yr - 1"] y unfolding e
    by (simp add: winter_solstice_def yr_def E_def)
  have s3: "mk_date yr 6 21 = Inr (E + L - 193)"
    using summer_solstice_ord [of yr] y unfolding E1
    by (simp add: summer_solstice_def yr_def)
  have s4: "mk_date yr 12 21 = Inr (E + L - 10)"
    using winter_solstice_ord [of yr] y unfolding E1
    by (simp add: winter_solstice_def yr_def)
  have s5: "mk_date (yr + 1) 6 21 = Inr (E + L + L' - 193)"
    using summer_solstice_ord [of "yr + 1"] y unfolding E2
    by (simp add: summer_solstice_def yr_def)
  have s6: "mk_date (yr + 1) 12 21 = Inr (E + L + L' - 10)"
    using winter_solstice_ord [of "yr + 1"] y unfolding E2
    by (simp add: winter_solstice_def yr_def)
  have LL: "L = 365 \<or> L = 366" "L' = 365 \<or> L' = 366" by (simp_all add: L_def L'_def)
  have lns: "last_next_solstice d =
     (let sols = [E - 193, E - 10, E + L - 193, E + L - 10, E + L + L' - 193, E + L + L' - 10] in
       ebind (py_max (filter (\<lambda>s. s \<le> d) sols)) (\<lambda>last_sol.
       ebind (py_min (filter (\<lambda>s. s > d) sols)) (\<lambda>next_sol.
         Inr (last_sol, next_sol))))"
    unfolding last_next_solstice_def yr_def [symmetric] s1 s2 s3 s4 s5 s6
    by (simp add: ebind_def)
  consider (a) "d < E + L - 193" | (b) "E + L - 193 \<le> d" "d < E + L - 10" | (c) "E + L - 10 \<le> d"
    by linarith
  then show ?thesis
  proof cases
    case a
    then show ?thesis unfolding lns using br LL
      by (auto simp: ebind_def py_max_def py_min_def Let_def)
  next
    case b
    then show ?thesis unfolding lns using br LL
      by (auto simp: ebind_def py_max_def py_min_def Let_def)
  next
    case c
    then show ?thesis unfolding lns using br LL
      by (auto simp: ebind_def py_max_def py_min_def Let_def)
  qed
qed

lemma last_next_solstice_out_of_range:
  assumes "date_year d < 2 \<or> 9998 < date_year d"
  shows "last_next_solstice d = Inl ValueError"
proof (cases "date_year d < 2")
  case True
  then have "mk_date (date_year d - 1) 6 21 = Inl ValueError"
    by (intro mk_date_year_out_of_range) simp
  then show ?thesis by (simp add: last_next_solstice_def ebind_def)
next
  case False
  then have "mk_date (date_year d + 1) 6 21 = Inl ValueError"
    using assms by (intro mk_date_year_out_of_range) simp
  then show ?thesis
    by (auto simp: last_next_solstice_def ebind_def split: sum.splits dest: mk_date_error)
qed

lemma last_next_solstice_2025_6_21: "last_next_solstice 739423 = Inr (739423, 739606)"
proof -
  have "days_before_year 2025 = 739251" "\<not> is_leap 2025" "\<not> is_leap (2025 + 1)"
    by (simp_all add: days_before_year_def is_leap_def)
  then show ?thesis
    using last_next_solstice_cases [of 739423] by (simp add: date_year_values)
qed

section \<open>The phase locator returns the phase of the date\<close>

text \<open>
  C1, as amended.  \<open>find_phase\<close> never reaches its \<open>RuntimeError\<close> branch, for any
  date.  For every date \<open>d\<close> from 0002-01-01 through 9999-11-29 it returns a phase whose
  inclusive interval \<open>[start, end]\<close> contains \<open>d\<close>, and that phase is the only phase of
  any built cycle that contains \<open>d\<close>.  For the remaining dates (the year 1 and the last
  32 days of the year 9999) it raises the \<open>ValueError\<close> of the \<open>date\<close> constructor,
  because a cycle for the winter year 0, or a solstice of the year 10000, is requested.
\<close>

theorem find_phase_covers:
  "find_phase d \<noteq> Inl RuntimeError \<and>
   (\<forall>lo hi. mk_date 2 1 1 = Inr lo \<and> mk_date 9999 11 29 = Inr hi \<longrightarrow>
      (lo \<le> d \<and> d \<le> hi \<longrightarrow>
         (\<exists>ph. find_phase d = Inr ph \<and> ph_start ph \<le> d \<and> d \<le> ph_end ph \<and>
               (\<forall>wy ps q. build_cycle wy = Inr ps \<and> q \<in> set ps \<and>
                   ph_start q \<le> d \<and> d \<le> ph_end q \<longrightarrow> q = ph))) \<and>
      (d < lo \<or> hi < d \<longrightarrow> find_phase d = Inl ValueError))"
proof (intro conjI allI impI)
  show "find_phase d \<noteq> Inl RuntimeError" by (rule find_phase_never_runtime_error)
next
  fix lo hi
  assume b: "mk_date 2 1 1 = Inr lo \<and> mk_date 9999 11 29 = Inr hi" and d: "lo \<le> d \<and> d \<le> hi"
  then have "366 \<le> d" "d \<le> 3652027" by (auto simp: mk_date_values)
  then obtain ph where ph: "find_phase d = Inr ph" "contains ph d"
    using find_phase_in_range by blast
  obtain wy ps where c: "build_cycle wy = Inr ps" "ph \<in> set ps"
    using find_phase_sound [OF ph(1)] by blast
  have "\<forall>wy' ps' q. build_cycle wy' = Inr ps' \<and> q \<in> set ps' \<and>
                   ph_start q \<le> d \<and> d \<le> ph_end q \<longrightarrow> q = ph"
    using phase_unique [OF _ _ _ c ph(2)] by (auto simp: contains_def)
  then show "\<exists>ph. find_phase d = Inr ph \<and> ph_start ph \<le> d \<and> d \<le> ph_end ph \<and>
               (\<forall>wy ps q. build_cycle wy = Inr ps \<and> q \<in> set ps \<and>
                   ph_start q \<le> d \<and> d \<le> ph_end q \<longrightarrow> q = ph)"
    using ph by (auto simp: contains_def)
next
  fix lo hi
  assume b: "mk_date 2 1 1 = Inr lo \<and> mk_date 9999 11 29 = Inr hi" and d: "d < lo \<or> hi < d"
  then have "d < 366 \<or> 3652027 < d" by (auto simp: mk_date_values)
  then show "find_phase d = Inl ValueError" by (rule find_phase_out_of_range)
qed

text \<open>The theorem at 2025-06-21, with its hypotheses discharged.\<close>

theorem find_phase_covers_witness:
  "mk_date 2025 6 21 = Inr 739423 \<and> mk_date 2 1 1 = Inr 366 \<and>
   mk_date 9999 11 29 = Inr 3652027 \<and> (366 :: int) \<le> 739423 \<and> (739423 :: int) \<le> 3652027 \<and>
   (\<exists>ph. find_phase 739423 = Inr ph \<and> ph_start ph \<le> 739423 \<and> 739423 \<le> ph_end ph)"
  using find_phase_covers [of 739423] mk_date_values(2,3) mk_date_2025_6_21 by auto

text \<open>
  C1 as stated fails: for 0001-06-15 the first cycle scanned is that of winter year 0, and
  \<open>date(0, 12, 21)\<close> raises \<open>ValueError\<close>; no phase is returned.
\<close>

theorem find_phase_year_one_counterexample:
  "mk_date 1 6 15 = Inr 166 \<and> find_phase 166 = Inl ValueError"
  by (simp add: mk_date_values find_phase_early_year date_year_166)

section \<open>Invariants of the built cycle\<close>

text \<open>
  C2.  In the list returned by \<open>build_cycle\<close> every phase but the first starts on the day
  after its predecessor ends, and every phase has \<open>start \<le> end\<close>.  A list is returned for
  every winter year from 1 to 9998 (outside that range the \<open>date\<close> constructor raises and
  there is no list).
\<close>

theorem build_cycle_gapless:
  "(1 \<le> wy \<and> wy \<le> 9998 \<longrightarrow> (\<exists>ps. build_cycle wy = Inr ps)) \<and>
   (\<forall>ps. build_cycle wy = Inr ps \<longrightarrow>
      (\<forall>i. Suc i < length ps \<longrightarrow>
         date_add (ph_end (ps ! i)) 1 = Inr (ph_start (ps ! Suc i))) \<and>
      (\<forall>p \<in> set ps. ph_start p \<le> ph_end p))"
  using build_cycle_ok [of wy] build_cycle_shape(1,2) [of wy] gapless_nth
  by (auto simp: proper_set)

text \<open>The theorem at winter year 2024: the cycle exists, and its first two phases abut.\<close>

theorem build_cycle_gapless_witness:
  "\<exists>ps. build_cycle 2024 = Inr ps \<and> 
     date_add (ph_end (ps ! 0)) 1 = Inr (ph_start (ps ! 1)) \<and>
     ph_start (ps ! 0) \<le> ph_end (ps ! 0)"
proof -
  have len: "\<And>ps. build_cycle 2024 = Inr ps \<Longrightarrow> length ps = 10"
    by (rule build_cycle_shape(3))
  obtain ps where ps: "build_cycle 2024 = Inr ps"
    using build_cycle_gapless [of 2024] by auto
  have "date_add (ph_end (ps ! 0)) 1 = Inr (ph_start (ps ! Suc 0))"
    using build_cycle_gapless [of 2024] ps len [OF ps] by auto
  moreover have "ps ! 0 \<in> set ps" using len [OF ps] by (intro nth_mem) simp
  then have "ph_start (ps ! 0) \<le> ph_end (ps ! 0)"
    using build_cycle_gapless [of 2024] ps by blast
  ultimately show ?thesis using ps by auto
qed

text \<open>
  C3.  In every built cycle the hard phases are Winter Hard and Summer Hard; each spans
  exactly 42 days, from 21 days before its solstice (December 21 of the winter year, June 21
  of the following year) through 20 days after it; every transit phase that is not variable
  spans exactly 42 days.  For winter year 2024 the winter solstice is 2024-12-21 and Winter
  Hard spans 2024-11-30 through 2025-01-10.
\<close>

theorem hard_and_fixed_phases_span_42_days:
  "(\<forall>ps. build_cycle wy = Inr ps \<longrightarrow>
      (\<exists>ws ss. winter_solstice wy = Inr ws \<and> summer_solstice (wy + 1) = Inr ss \<and>
         map ph_name (filter (\<lambda>p. ph_kind p = ''hard'') ps) = [''Winter Hard'', ''Summer Hard''] \<and>
         (\<forall>p \<in> set ps.
            (ph_kind p = ''hard'' \<longrightarrow>
               total_days p = 42 \<and>
               (ph_season p = ''Winter'' \<and> date_sub ws 21 = Inr (ph_start p) \<and>
                  date_add ws 20 = Inr (ph_end p) \<or>
                ph_season p = ''Summer'' \<and> date_sub ss 21 = Inr (ph_start p) \<and>
                  date_add ss 20 = Inr (ph_end p))) \<and>
            (ph_kind p = ''transit'' \<and> \<not> ph_variable p \<longrightarrow> total_days p = 42)))) \<and>
   (\<exists>ps ws s e. build_cycle 2024 = Inr ps \<and> winter_solstice 2024 = Inr ws \<and>
       mk_date 2024 12 21 = Inr ws \<and> mk_date 2024 11 30 = Inr s \<and> mk_date 2025 1 10 = Inr e \<and>
       ph_name (hd ps) = ''Winter Hard'' \<and> ph_start (hd ps) = s \<and> ph_end (hd ps) = e \<and>
       total_days (hd ps) = 42)"
proof (intro conjI allI impI)
  fix ps
  assume ps: "build_cycle wy = Inr ps"
  then obtain E L where *: "L = 365 \<or> L = 366" "365 \<le> E" "E + L \<le> 3652059"
    "winter_solstice wy = Inr (E - 10)"
    "summer_solstice (wy + 1) = Inr (E + L - 193)"
    "ps = cycle_layout E L"
    by (rule build_cycle_unfold)
  show "\<exists>ws ss. winter_solstice wy = Inr ws \<and> summer_solstice (wy + 1) = Inr ss \<and>
         map ph_name (filter (\<lambda>p. ph_kind p = ''hard'') ps) = [''Winter Hard'', ''Summer Hard''] \<and>
         (\<forall>p \<in> set ps.
            (ph_kind p = ''hard'' \<longrightarrow>
               total_days p = 42 \<and>
               (ph_season p = ''Winter'' \<and> date_sub ws 21 = Inr (ph_start p) \<and>
                  date_add ws 20 = Inr (ph_end p) \<or>
                ph_season p = ''Summer'' \<and> date_sub ss 21 = Inr (ph_start p) \<and>
                  date_add ss 20 = Inr (ph_end p))) \<and>
            (ph_kind p = ''transit'' \<and> \<not> ph_variable p \<longrightarrow> total_days p = 42))"
    unfolding *(4,5,6)
    using *(1,2,3)
    by (simp add: cycle_layout_def total_days_def days_between_def date_add_def date_sub_def
        MAXORDINAL_def Let_def) linarith
next
  have ps: "build_cycle 2024 = Inr (cycle_layout 739251 365)"
    using build_cycle_layout [of 2024] by (simp add: days_before_year_def is_leap_def)
  have d: "mk_date 2024 12 21 = Inr 739241" "mk_date 2024 11 30 = Inr 739220"
    "mk_date 2025 1 10 = Inr 739261"
    by (simp_all add: mk_date_def MINYEAR_def MAXYEAR_def days_in_month_def is_leap_def
        DAYS_IN_MONTH_def ymd2ord_def days_before_year_def days_before_month_def
        DAYS_BEFORE_MONTH_def)
  show "\<exists>ps ws s e. build_cycle 2024 = Inr ps \<and> winter_solstice 2024 = Inr ws \<and>
       mk_date 2024 12 21 = Inr ws \<and> mk_date 2024 11 30 = Inr s \<and> mk_date 2025 1 10 = Inr e \<and>
       ph_name (hd ps) = ''Winter Hard'' \<and> ph_start (hd ps) = s \<and> ph_end (hd ps) = e \<and>
       total_days (hd ps) = 42"
    unfolding ps winter_solstice_def d
    by (simp add: cycle_layout_def total_days_def days_between_def)
qed

text \<open>The theorem at winter year 2024, for the first phase of the cycle.\<close>

theorem hard_and_fixed_phases_span_42_days_witness:
  "\<exists>ps. build_cycle 2024 = Inr ps \<and> ph_kind (hd ps) = ''hard'' \<and> total_days (hd ps) = 42"
proof -
  have ps: "build_cycle 2024 = Inr (cycle_layout 739251 365)"
    using build_cycle_layout [of 2024] by (simp add: days_before_year_def is_leap_def)
  have k: "hd (cycle_layout 739251 365) \<in> set (cycle_layout 739251 365)"
    "ph_kind (hd (cycle_layout 739251 365)) = ''hard''"
    by (simp_all add: cycle_layout_def)
  have "total_days (hd (cycle_layout 739251 365)) = 42"
    using hard_and_fixed_phases_span_42_days [of 2024] ps k by blast
  then show ?thesis using ps k by blast
qed

text \<open>
  C4.  The variable phases of a built cycle are Summer Transit 2 and the Winter Transit 2
  with position "before".  The first ends 22 days before the summer solstice of the year
  after the winter year, the day before Summer Hard starts (21 days before that solstice);
  the second ends 22 days before the next winter solstice, the day before the Winter Hard
  phase of the next cycle starts (21 days before that solstice).  The anchoring does not
  depend on the fixed-length blocks: for every choice of \<open>FIXED_DAYS\<close> and \<open>HARD_DAYS\<close>,
  a variable phase of the built cycle ends 22 days before its solstice and a hard phase
  starts 21 days before its solstice.
\<close>

theorem variable_phases_end_before_hard:
  "(\<forall>ps. build_cycle wy = Inr ps \<longrightarrow>
     (\<exists>ss wsn v1 v2 sh.
        summer_solstice (wy + 1) = Inr ss \<and> winter_solstice (wy + 1) = Inr wsn \<and>
        filter ph_variable ps = [v1, v2] \<and>
        ph_name v1 = ''Summer Transit 2'' \<and> date_sub ss 22 = Inr (ph_end v1) \<and>
        ph_name v2 = ''Winter Transit 2'' \<and> ph_pos v2 = Some ''before'' \<and>
        date_sub wsn 22 = Inr (ph_end v2) \<and>
        sh \<in> set ps \<and> ph_name sh = ''Summer Hard'' \<and>
        date_add (ph_end v1) 1 = Inr (ph_start sh) \<and> date_sub ss 21 = Inr (ph_start sh) \<and>
        (\<forall>ps'. build_cycle (wy + 1) = Inr ps' \<longrightarrow>
           ph_name (hd ps') = ''Winter Hard'' \<and>
           date_add (ph_end v2) 1 = Inr (ph_start (hd ps')) \<and>
           date_sub wsn 21 = Inr (ph_start (hd ps'))))) \<and>
   (\<forall>fixed_days hard_days ps. build_cycle_cfg fixed_days hard_days wy = Inr ps \<longrightarrow>
      (\<exists>ws ss wsn. winter_solstice wy = Inr ws \<and> summer_solstice (wy + 1) = Inr ss \<and>
         winter_solstice (wy + 1) = Inr wsn \<and>
         (\<forall>p \<in> set ps.
            (ph_variable p \<and> ph_season p = ''Summer'' \<longrightarrow> date_sub ss 22 = Inr (ph_end p)) \<and>
            (ph_variable p \<and> ph_season p = ''Winter'' \<longrightarrow> date_sub wsn 22 = Inr (ph_end p)) \<and>
            (ph_kind p = ''hard'' \<and> ph_season p = ''Winter'' \<longrightarrow>
               date_sub ws 21 = Inr (ph_start p)) \<and>
            (ph_kind p = ''hard'' \<and> ph_season p = ''Summer'' \<longrightarrow>
               date_sub ss 21 = Inr (ph_start p)))))"
  using variable_phases_default [of wy] build_cycle_cfg_anchors [of _ _ wy] by blast

text \<open>
  The theorem at winter year 2024: with the default constants the two variable phases end
  on 2025-05-30 and 2025-11-29; with \<open>FIXED_DAYS = 30\<close> the variable Summer Transit 2 is
  longer and still ends 22 days before the summer solstice.
\<close>

theorem variable_phases_end_before_hard_witness:
  "(\<exists>ps v1 v2. build_cycle 2024 = Inr ps \<and> filter ph_variable ps = [v1, v2] \<and>
     mk_date 2025 5 30 = Inr (ph_end v1) \<and> mk_date 2025 11 29 = Inr (ph_end v2) \<and>
     ph_name v1 = ''Summer Transit 2'' \<and> ph_name v2 = ''Winter Transit 2'') \<and>
   (\<exists>ps p ss. build_cycle_cfg 30 42 2024 = Inr ps \<and> p \<in> set ps \<and> ph_variable p \<and>
     ph_season p = ''Summer'' \<and> ph_start p = 739352 \<and>
     summer_solstice 2025 = Inr ss \<and> date_sub ss 22 = Inr (ph_end p))"
proof -
  have ps: "build_cycle 2024 = Inr (cycle_layout 739251 365)"
    using build_cycle_layout [of 2024] by (simp add: days_before_year_def is_leap_def)
  have d: "mk_date 2025 5 30 = Inr 739401" "mk_date 2025 11 29 = Inr 739584"
    by (simp_all add: mk_date_def MINYEAR_def MAXYEAR_def days_in_month_def is_leap_def
        DAYS_IN_MONTH_def ymd2ord_def days_before_year_def days_before_month_def
        DAYS_BEFORE_MONTH_def)
  obtain v1 v2 where v: "filter ph_variable (cycle_layout 739251 365) = [v1, v2]"
    "ph_name v1 = ''Summer Transit 2''" "ph_name v2 = ''Winter Transit 2''"
    using variable_phases_end_before_hard [of 2024, THEN conjunct1] ps by blast
  then have "ph_end v1 = 739401" "ph_end v2 = 739584"
    by (auto simp: cycle_layout_def)
  then have 1: "\<exists>ps v1 v2. build_cycle 2024 = Inr ps \<and> filter ph_variable ps = [v1, v2] \<and>
     mk_date 2025 5 30 = Inr (ph_end v1) \<and> mk_date 2025 11 29 = Inr (ph_end v2) \<and>
     ph_name v1 = ''Summer Transit 2'' \<and> ph_name v2 = ''Winter Transit 2''"
    using ps v d by auto
  define p where "p = \<lparr>ph_name = ''Summer Transit 2'', ph_season = ''Summer'',
       ph_kind = ''transit'', ph_start = 739352, ph_end = 739401, ph_pos = None,
       ph_variable = True\<rparr>"
  obtain qs where qs: "build_cycle_cfg 30 42 2024 = Inr qs" "p \<in> set qs"
    using build_cycle_cfg_30_42_2024 unfolding p_def by auto
  have pp: "ph_variable p" "ph_season p = ''Summer''" "ph_start p = 739352"
    by (simp_all add: p_def)
  have "2024 + 1 = (2025 :: int)" by simp
  then have "date_sub 739423 22 = Inr (ph_end p)"
    using variable_phases_end_before_hard [of 2024, THEN conjunct2, rule_format, OF qs(1)]
      qs(2) pp solstice_values_2024 by auto
  then have 2: "\<exists>ps p ss. build_cycle_cfg 30 42 2024 = Inr ps \<and> p \<in> set ps \<and> ph_variable p \<and>
     ph_season p = ''Summer'' \<and> ph_start p = 739352 \<and>
     summer_solstice 2025 = Inr ss \<and> date_sub ss 22 = Inr (ph_end p)"
    using qs pp solstice_values_2024(2) by blast
  show ?thesis using 1 2 by (rule conjI)
qed

section \<open>The solstice locator\<close>

text \<open>
  C5, as amended.  For every date \<open>d\<close> of the years 2 to 9998, \<open>last_next_solstice\<close> returns
  \<open>(last, next)\<close> with \<open>last \<le> d < next\<close> and \<open>next - last\<close> 182 or 183 days.  For
  every date of the year 1 or the year 9999 it raises the \<open>ValueError\<close> of the \<open>date\<close>
  constructor, because the six-date list holds a date of the year 0 or 10000.
\<close>

theorem last_next_solstice_brackets:
  "(2 \<le> date_year d \<and> date_year d \<le> 9998 \<longrightarrow>
      (\<exists>last_sol next_sol. last_next_solstice d = Inr (last_sol, next_sol) \<and>
          last_sol \<le> d \<and> d < next_sol \<and>
          182 \<le> days_between next_sol last_sol \<and> days_between next_sol last_sol \<le> 183)) \<and>
   (date_year d < 2 \<or> 9998 < date_year d \<longrightarrow> last_next_solstice d = Inl ValueError)"
proof (intro conjI impI)
  assume y: "2 \<le> date_year d \<and> date_year d \<le> 9998"
  define E where "E = days_before_year (date_year d)"
  define L :: int where "L = (if is_leap (date_year d) then 366 else 365)"
  define L' :: int where "L' = (if is_leap (date_year d + 1) then 366 else 365)"
  have br: "E < d" "d \<le> E + L"
    using year_bracket [of d] dby_step [of "date_year d"] by (simp_all add: E_def L_def)
  have LL: "L = 365 \<or> L = 366" "L' = 365 \<or> L' = 366" by (simp_all add: L_def L'_def)
  have "last_next_solstice d =
           Inr (if d < E + L - 193 then (E - 10, E + L - 193)
                else if d < E + L - 10 then (E + L - 193, E + L - 10)
                else (E + L - 10, E + L + L' - 193))"
    unfolding E_def L_def L'_def using y by (intro last_next_solstice_cases) simp_all
  then show "\<exists>last_sol next_sol. last_next_solstice d = Inr (last_sol, next_sol) \<and>
          last_sol \<le> d \<and> d < next_sol \<and>
          182 \<le> days_between next_sol last_sol \<and> days_between next_sol last_sol \<le> 183"
    using br LL by (auto simp: days_between_def)
next
  assume "date_year d < 2 \<or> 9998 < date_year d"
  then show "last_next_solstice d = Inl ValueError" by (rule last_next_solstice_out_of_range)
qed

text \<open>The theorem at 2025-06-21, a date of the year 2025.\<close>

theorem last_next_solstice_brackets_witness:
  "mk_date 2025 6 21 = Inr 739423 \<and> date_year 739423 = 2025 \<and>
   (\<exists>last_sol next_sol. last_next_solstice 739423 = Inr (last_sol, next_sol) \<and>
      last_sol \<le> 739423 \<and> 739423 < next_sol \<and>
      182 \<le> days_between next_sol last_sol \<and> days_between next_sol last_sol \<le> 183)"
  using last_next_solstice_brackets [of 739423] date_year_values(1) mk_date_2025_6_21
  by simp

text \<open>
  C5 as stated fails: for 9999-06-15 the list of six solstices holds \<open>date(10000, 6, 21)\<close>,
  which raises \<open>ValueError\<close>.
\<close>

theorem last_next_solstice_year_9999_counterexample:
  "mk_date 9999 6 15 = Inr 3651860 \<and> last_next_solstice 3651860 = Inl ValueError"
  by (simp add: mk_date_9999_6_15 last_next_solstice_out_of_range date_year_values)

text \<open>
  C6.  \<open>solstice_name\<close> is "Summer" for a date whose month is June and "Winter" for any
  other month.  For today = 2025-06-21 the last solstice is 2025-06-21 itself, its name is
  "Summer", and \<open>(today - last).days\<close> is 0 (the handler's counters are 0 days from the
  Summer solstice, 183 days to the Winter solstice).
\<close>

theorem solstice_name_by_month:
  "(date_month d = 6 \<longrightarrow> solstice_name d = ''Summer'') \<and>
   (date_month d \<noteq> 6 \<longrightarrow> solstice_name d = ''Winter'') \<and>
   (\<exists>today last_sol next_sol.
      mk_date 2025 6 21 = Inr today \<and> last_next_solstice today = Inr (last_sol, next_sol) \<and>
      mk_date 2025 6 21 = Inr last_sol \<and> solstice_name last_sol = ''Summer'' \<and>
      days_between today last_sol = 0 \<and>
      solstice_counters today = Inr (0, ''Summer'', 183, ''Winter''))"
  by (simp add: solstice_name_def mk_date_2025_6_21 last_next_solstice_2025_6_21
      date_month_values days_between_def solstice_counters_def ebind_def)

text \<open>The theorem at 2025-06-21 (June) and at 2025-12-21 (not June).\<close>

theorem solstice_name_by_month_witness:
  "date_month 739423 = 6 \<and> solstice_name 739423 = ''Summer'' \<and>
   date_month 739606 \<noteq> 6 \<and> solstice_name 739606 = ''Winter''"
  using solstice_name_by_month [of 739423] solstice_name_by_month [of 739606]
  by (simp add: date_month_values)

section \<open>Degenerate phases\<close>

text \<open>
  C9.  The helper \<open>add\<close> returns the list unchanged when \<open>start > end\<close>.  For every winter
  year and every choice of \<open>FIXED_DAYS\<close> and \<open>HARD_DAYS\<close>, \<open>build_cycle\<close> yields the phases
  handed to \<open>add\<close> without those whose start is after their end, in the same order, and it
  raises exactly when the date computations themselves raise: a degenerate phase causes
  no error, and no built cycle holds one.
\<close>

theorem degenerate_phases_omitted:
  "(\<forall>phases name season kind start end' pos variable.
      start > end' \<longrightarrow> add phases name season kind start end' pos variable = phases) \<and>
   build_cycle_cfg fixed_days hard_days wy =
     map_sum id (filter (\<lambda>p. \<not> ph_start p > ph_end p))
       (cycle_candidates fixed_days hard_days wy) \<and>
   (\<forall>ps. build_cycle_cfg fixed_days hard_days wy = Inr ps \<longrightarrow>
      (\<forall>p \<in> set ps. \<not> ph_start p > ph_end p))"
proof (intro conjI allI impI)
  fix phases name season kind and start end' :: date and pos variable
  assume "start > end'"
  then show "add phases name season kind start end' pos variable = phases"
    by (simp add: add_def)
next
  show f: "build_cycle_cfg fixed_days hard_days wy =
     map_sum id (filter (\<lambda>p. \<not> ph_start p > ph_end p))
       (cycle_candidates fixed_days hard_days wy)"
    by (simp only: build_cycle_cfg_filters_candidates not_less)
  fix ps
  assume "build_cycle_cfg fixed_days hard_days wy = Inr ps"
  then show "\<forall>p \<in> set ps. \<not> ph_start p > ph_end p"
    unfolding f by (cases "cycle_candidates fixed_days hard_days wy") auto
qed

text \<open>
  The theorem at winter year 2024 with \<open>FIXED_DAYS = 100\<close> and \<open>HARD_DAYS = 0\<close>: four of
  the ten phases handed to \<open>add\<close> are degenerate, and the cycle holds the other six.
\<close>

theorem degenerate_phases_omitted_witness:
  "(5 :: int) > 3 \<and> add [] ''Winter Hard'' ''Winter'' ''hard'' 5 3 None False = [] \<and>
   build_cycle_cfg 100 0 2024 = Inr
     [\<lparr>ph_name = ''Winter Transit 1'', ph_season = ''Winter'', ph_kind = ''transit'',
        ph_start = 739220, ph_end = 739319, ph_pos = Some ''after'', ph_variable = False\<rparr>,
      \<lparr>ph_name = ''Winter Transit 2'', ph_season = ''Winter'', ph_kind = ''transit'',
        ph_start = 739320, ph_end = 739419, ph_pos = Some ''after'', ph_variable = False\<rparr>,
      \<lparr>ph_name = ''Summer Transit 1'', ph_season = ''Summer'', ph_kind = ''transit'',
        ph_start = 739420, ph_end = 739519, ph_pos = None, ph_variable = False\<rparr>,
      \<lparr>ph_name = ''Summer Transit 1'', ph_season = ''Summer'', ph_kind = ''transit'',
        ph_start = 739402, ph_end = 739501, ph_pos = None, ph_variable = False\<rparr>,
      \<lparr>ph_name = ''Summer Transit 2'', ph_season = ''Summer'', ph_kind = ''transit'',
        ph_start = 739502, ph_end = 739601, ph_pos = None, ph_variable = False\<rparr>,
      \<lparr>ph_name = ''Winter Transit 1'', ph_season = ''Winter'', ph_kind = ''transit'',
        ph_start = 739602, ph_end = 739701, ph_pos = Some ''before'', ph_variable = False\<rparr>]"
proof -
  note t = degenerate_phases_omitted [of 100 0 2024]
  have a: "add [] ''Winter Hard'' ''Winter'' ''hard'' 5 3 None False = []"
    by (rule t [THEN conjunct1, rule_format]) simp
  have b: "build_cycle_cfg 100 0 2024 =
     map_sum id (filter (\<lambda>p. \<not> ph_start p > ph_end p)) (cycle_candidates 100 0 2024)"
    by (rule t [THEN conjunct2, THEN conjunct1])
  show ?thesis
    unfolding b cycle_candidates_100_0_2024 a by simp
qed

section \<open>The week of a hard phase\<close>

text \<open>
  C10.  Whenever the phase located for a date \<open>d\<close> has kind "hard", the day index
  \<open>(d - phase.start).days\<close> lies in 0..41, \<open>week_idx = day_index // 7\<close> lies in 0..5, and
  the lookup \<open>HARD_WEEK_NAMES[week_idx]\<close> succeeds; the title computation of the handler
  never raises \<open>IndexError\<close>.
\<close>

theorem hard_week_index_in_bounds:
  "(\<forall>ph. find_phase d = Inr ph \<and> ph_kind ph = ''hard'' \<longrightarrow>
      0 \<le> days_between d (ph_start ph) \<and> days_between d (ph_start ph) \<le> 41 \<and>
      0 \<le> days_between d (ph_start ph) div WEEK \<and>
      days_between d (ph_start ph) div WEEK \<le> 5 \<and>
      py_index HARD_WEEK_NAMES (days_between d (ph_start ph) div WEEK) =
        Inr (HARD_WEEK_NAMES ! nat (days_between d (ph_start ph) div WEEK))) \<and>
   data_title d \<noteq> Inl IndexError"
proof -
  have main: "0 \<le> days_between d (ph_start ph) \<and> days_between d (ph_start ph) \<le> 41 \<and>
      0 \<le> days_between d (ph_start ph) div WEEK \<and>
      days_between d (ph_start ph) div WEEK \<le> 5 \<and>
      py_index HARD_WEEK_NAMES (days_between d (ph_start ph) div WEEK) =
        Inr (HARD_WEEK_NAMES ! nat (days_between d (ph_start ph) div WEEK))"
    if ph: "find_phase d = Inr ph" "ph_kind ph = ''hard''" for ph
  proof -
    obtain wy ps where c: "build_cycle wy = Inr ps" "ph \<in> set ps" "contains ph d"
      using find_phase_sound [OF ph(1)] by blast
    have "ph_end ph = ph_start ph + 41" using c(1,2) ph(2) by (rule hard_phase_length)
    then have i: "0 \<le> days_between d (ph_start ph)" "days_between d (ph_start ph) \<le> 41"
      using c(3) by (simp_all add: contains_def days_between_def)
    then have w: "0 \<le> days_between d (ph_start ph) div WEEK"
      "days_between d (ph_start ph) div WEEK \<le> 5"
      by (simp_all add: WEEK_def)
    then have "py_index HARD_WEEK_NAMES (days_between d (ph_start ph) div WEEK) =
        Inr (HARD_WEEK_NAMES ! nat (days_between d (ph_start ph) div WEEK))"
      by (intro py_index_in_bounds) (simp_all add: HARD_WEEK_NAMES_def)
    then show ?thesis using i w by simp
  qed
  have "data_title d \<noteq> Inl IndexError"
  proof (cases "find_phase d")
    case (Inl e)
    then have "e = ValueError" by (rule find_phase_error)
    then show ?thesis using Inl by (simp add: data_title_def ebind_def)
  next
    case (Inr ph)
    then show ?thesis using main [of ph]
      by (simp add: data_title_def ebind_def Let_def)
  qed
  then show ?thesis using main by blast
qed

text \<open>The theorem at 2025-06-21, which lies in Summer Hard: day index 21, week index 3.\<close>

theorem hard_week_index_in_bounds_witness:
  "\<exists>ph. find_phase 739423 = Inr ph \<and> ph_kind ph = ''hard'' \<and> ph_name ph = ''Summer Hard'' \<and>
     days_between 739423 (ph_start ph) = 21 \<and>
     py_index HARD_WEEK_NAMES (days_between 739423 (ph_start ph) div WEEK) =
       Inr (HARD_WEEK_NAMES ! nat (days_between 739423 (ph_start ph) div WEEK)) \<and>
     data_title 739423 \<noteq> Inl IndexError"
  using hard_week_index_in_bounds [of 739423]
  by (simp add: find_phase_2025_6_21 days_between_def)

end
